theory Spec2Isabelle
  imports Complex_Main "HOL-Library.Sublist" "HOL-Library.Log_Nat"
begin

chapter \<open>Go-Whisper-Client: chunk planning, silence parsing and result merging\<close>

text \<open>
  The development embeds the functions of \<^verbatim>\<open>main.go\<close> that plan the cuts of a long
  audio file, parse the silence report of the media tool, extract the chunks and merge the
  per-chunk transcripts. Times are Go \<^verbatim>\<open>float64\<close> seconds. The planner and the subtitle
  timestamp formatter behave as they do because of how \<^verbatim>\<open>float64\<close> arithmetic rounds, so
  both are embedded over a model of binary64 arithmetic. For the parser and the merger the
  times are idealised as \<^typ>\<open>real\<close>: the properties proved there are about the structure
  of the results and use no law of arithmetic beyond the source's own additions and
  comparisons.
\<close>

section \<open>Definitions\<close>

subsection \<open>Binary64 arithmetic\<close>

text \<open>
  A model of IEEE 754 binary64: a finite double is the rational number it denotes, and
  every operation returns the exact result rounded to the nearest number with a 53-bit
  significand, ties to even. The exponent range is not modelled: the values that occur
  here are far from overflow and from the subnormal numbers.
\<close>

definition pow2 :: "int \<Rightarrow> rat" where
  "pow2 k = (if 0 \<le> k then 2 ^ nat k else 1 / 2 ^ nat (- k))"

text \<open>The exponent \<open>e\<close> with \<open>2\<^sup>e \<le> \<bar>x\<bar> < 2\<^sup>e\<^sup>+\<^sup>1\<close>, for \<open>x \<noteq> 0\<close>.\<close>

definition exponent_of :: "rat \<Rightarrow> int" where
  "exponent_of x =
     (let a = \<bar>x\<bar> in
      if 1 \<le> a then int (floorlog 2 (nat \<lfloor>a\<rfloor>)) - 1
      else - int (floorlog 2 (nat (\<lceil>1 / a\<rceil> - 1))))"

definition round_half_even :: "rat \<Rightarrow> int" where
  "round_half_even t =
     (let f = \<lfloor>t\<rfloor>; r = t - of_int f in
      if r < 1 / 2 then f else if 1 / 2 < r then f + 1
      else if even f then f else f + 1)"

definition round_binary64 :: "rat \<Rightarrow> rat" where
  "round_binary64 x =
     (if x = 0 then 0
      else (let ulp = pow2 (exponent_of x - 52)
            in of_int (round_half_even (x / ulp)) * ulp))"

definition fsub :: "rat \<Rightarrow> rat \<Rightarrow> rat" where
  "fsub x y = round_binary64 (x - y)"

definition fmul :: "rat \<Rightarrow> rat \<Rightarrow> rat" where
  "fmul x y = round_binary64 (x * y)"

definition fdiv :: "rat \<Rightarrow> rat \<Rightarrow> rat" where
  "fdiv x y = round_binary64 (x / y)"

definition fadd :: "rat \<Rightarrow> rat \<Rightarrow> rat" where
  "fadd x y = round_binary64 (x + y)"

subsection \<open>SplitPlanner: \<^verbatim>\<open>calculateSplitTimes\<close>\<close>

text \<open>
  A silence interval. The type of its times is a parameter: the parser produces intervals
  over \<^typ>\<open>real\<close>, the planner consumes intervals of binary64 numbers.
\<close>

record 't SilencePoint =
  sp_Start :: 't
  sp_End :: 't

text \<open>
  One pass of the inner \<^verbatim>\<open>for _, sp := range silencePoints\<close> loop. The loop state is
  the pair \<open>(bestTime, minDiff)\<close>. The constants 0.5 and 1.5 are binary64 numbers.
\<close>

definition pick_silence :: "rat \<Rightarrow> rat \<times> rat \<Rightarrow> rat SilencePoint \<Rightarrow> rat \<times> rat" where
  "pick_silence currentTime st sp =
     (let bestTime = fst st; minDiff = snd st;
          diff = fsub (sp_End sp) currentTime;
          diff = (if diff < 0 then - diff else diff)
      in if sp_End sp > fmul currentTime (1 / 2) \<and> sp_End sp < fmul currentTime (3 / 2)
            \<and> diff < minDiff
         then (sp_End sp, diff) else (bestTime, minDiff))"

text \<open>
  The inner loop as a whole: it starts from \<open>bestTime = currentTime\<close> and
  \<open>minDiff = idealChunkDuration\<close> and returns the final \<open>bestTime\<close>.
\<close>

definition find_bestTime :: "rat \<Rightarrow> rat \<Rightarrow> rat SilencePoint list \<Rightarrow> rat" where
  "find_bestTime idealChunkDuration currentTime silencePoints =
     fst (foldl (pick_silence currentTime) (currentTime, idealChunkDuration) silencePoints)"

text \<open>
  The outer \<^verbatim>\<open>for currentTime < totalDuration\<close> loop. Nothing in the source bounds the
  number of iterations, so the loop is a partial function: \<open>None\<close> is a run that never
  returns.
\<close>

partial_function (option) split_loop ::
  "rat \<Rightarrow> rat \<Rightarrow> rat SilencePoint list \<Rightarrow> rat \<Rightarrow> rat list \<Rightarrow> rat list option" where
  "split_loop totalDuration idealChunkDuration silencePoints currentTime splitTimes =
     (if currentTime < totalDuration then
        (let bestTime = find_bestTime idealChunkDuration currentTime silencePoints
         in if bestTime \<ge> totalDuration then Some splitTimes
            else split_loop totalDuration idealChunkDuration silencePoints
                   (fadd bestTime idealChunkDuration) (splitTimes @ [bestTime]))
      else Some splitTimes)"

definition calculateSplitTimes :: "rat \<Rightarrow> rat \<Rightarrow> rat SilencePoint list \<Rightarrow> rat list option" where
  "calculateSplitTimes totalDuration idealChunkDuration silencePoints =
     split_loop totalDuration idealChunkDuration silencePoints idealChunkDuration []"


definition silence_diff :: "rat \<Rightarrow> rat \<Rightarrow> rat" where
  "silence_diff target x = \<bar>fsub x target\<bar>"





subsection \<open>ResultMerger: \<^verbatim>\<open>mergeResults\<close>\<close>

record Segment =
  seg_ID :: int
  seg_Start :: real
  seg_End :: real
  seg_Text :: string

record TranscriptionResult =
  res_Text :: string
  res_Language :: string
  res_Segments :: "Segment list"
  res_Duration :: real

record AudioChunk =
  chunk_Path :: string
  chunk_StartOffset :: real

text \<open>
  The two ways \<^verbatim>\<open>mergeResults\<close> can panic: \<^verbatim>\<open>results\<close> is a slice of pointers, and
  \<^verbatim>\<open>chunks[i]\<close> is read for every index of \<^verbatim>\<open>results\<close>.
\<close>

datatype panic = NilPointerDereference | IndexOutOfRange

text \<open>
  The local variables of \<^verbatim>\<open>mergeResults\<close> that the loop updates: the language and the
  segments of \<^verbatim>\<open>merged\<close>, the counter \<^verbatim>\<open>segmentID\<close> and the string builder
  \<^verbatim>\<open>totalText\<close>. The counter is a Go \<^verbatim>\<open>int\<close>; it counts appended segments, so it
  stays far from the 64-bit bound and is modelled as an unbounded integer.
\<close>

record merge_state =
  ms_Language :: string
  ms_Segments :: "Segment list"
  ms_segmentID :: int
  ms_totalText :: string

definition newline :: char where
  "newline = CHR 0x0A"

text \<open>\<^verbatim>\<open>strings.HasSuffix(s, "\n")\<close>.\<close>

definition has_newline_suffix :: "string \<Rightarrow> bool" where
  "has_newline_suffix s \<longleftrightarrow> s \<noteq> [] \<and> last s = newline"

definition set_language :: "TranscriptionResult \<Rightarrow> merge_state \<Rightarrow> merge_state" where
  "set_language result st =
     (if ms_Language st = [] \<and> res_Language result \<noteq> []
      then st\<lparr>ms_Language := res_Language result\<rparr> else st)"

definition append_text :: "TranscriptionResult \<Rightarrow> merge_state \<Rightarrow> merge_state" where
  "append_text result st =
     (if res_Text result \<noteq> [] then
        (let st1 = st\<lparr>ms_totalText := ms_totalText st @ res_Text result\<rparr>
         in if \<not> has_newline_suffix (res_Text result)
            then st1\<lparr>ms_totalText := ms_totalText st1 @ [newline]\<rparr> else st1)
      else st)"

text \<open>The body of the inner \<^verbatim>\<open>for _, seg := range result.Segments\<close> loop.\<close>

definition append_segment :: "real \<Rightarrow> merge_state \<Rightarrow> Segment \<Rightarrow> merge_state" where
  "append_segment offset st seg =
     st\<lparr>ms_Segments := ms_Segments st @
           [\<lparr>seg_ID = ms_segmentID st, seg_Start = seg_Start seg + offset,
             seg_End = seg_End seg + offset, seg_Text = seg_Text seg\<rparr>],
        ms_segmentID := ms_segmentID st + 1\<rparr>"

definition append_placeholder :: "nat \<Rightarrow> TranscriptionResult \<Rightarrow> real \<Rightarrow> merge_state \<Rightarrow> merge_state" where
  "append_placeholder i result offset st =
     (if length (res_Segments result) = 0 \<and> i > 0 then
        st\<lparr>ms_Segments := ms_Segments st @
              [\<lparr>seg_ID = ms_segmentID st, seg_Start = offset,
                seg_End = offset + 10, seg_Text = res_Text result\<rparr>],
           ms_segmentID := ms_segmentID st + 1\<rparr>
      else st)"

text \<open>The body of the outer \<^verbatim>\<open>for i, result := range results\<close> loop.\<close>

definition merge_step ::
  "nat \<Rightarrow> TranscriptionResult option \<Rightarrow> AudioChunk list \<Rightarrow> merge_state \<Rightarrow> panic + merge_state" where
  "merge_step i result chunks st =
     (case result of
        None \<Rightarrow> Inl NilPointerDereference
      | Some r \<Rightarrow>
          (let st1 = set_language r st;
               st2 = append_text r st1
           in if i < length chunks then
                (let offset = chunk_StartOffset (chunks ! i);
                     st3 = foldl (append_segment offset) st2 (res_Segments r)
                 in Inr (append_placeholder i r offset st3))
              else Inl IndexOutOfRange))"

fun merge_loop ::
  "nat \<Rightarrow> TranscriptionResult option list \<Rightarrow> AudioChunk list \<Rightarrow> merge_state \<Rightarrow> panic + merge_state" where
  "merge_loop i [] chunks st = Inr st"
| "merge_loop i (result # results) chunks st =
     (case merge_step i result chunks st of
        Inl e \<Rightarrow> Inl e
      | Inr st' \<Rightarrow> merge_loop (Suc i) results chunks st')"

definition mergeResults ::
  "TranscriptionResult option list \<Rightarrow> AudioChunk list \<Rightarrow> panic + TranscriptionResult" where
  "mergeResults results chunks =
     (case merge_loop 0 results chunks
             \<lparr>ms_Language = [], ms_Segments = [], ms_segmentID = 1, ms_totalText = []\<rparr> of
        Inl e \<Rightarrow> Inl e
      | Inr st \<Rightarrow>
          Inr \<lparr>res_Text = ms_totalText st, res_Language = ms_Language st,
               res_Segments = ms_Segments st,
               res_Duration = (if length (ms_Segments st) > 0
                               then seg_End (ms_Segments st ! (length (ms_Segments st) - 1))
                               else 0)\<rparr>)"

text \<open>
  Vocabulary for the merger's properties. \<open>chunk_emits i r off\<close> lists what chunk \<open>i\<close>
  contributes to the timeline, before numbering; \<open>renumber n\<close> numbers a list of segments
  from \<open>n\<close>; \<open>emitted_before rs i\<close> is the number of segments contributed by the chunks
  before chunk \<open>i\<close>, that is, the position in the merged list where chunk \<open>i\<close> starts.
\<close>

definition shift_segment :: "real \<Rightarrow> Segment \<Rightarrow> Segment" where
  "shift_segment off s =
     \<lparr>seg_ID = seg_ID s, seg_Start = seg_Start s + off, seg_End = seg_End s + off,
      seg_Text = seg_Text s\<rparr>"

definition placeholder_segment :: "real \<Rightarrow> TranscriptionResult \<Rightarrow> Segment" where
  "placeholder_segment off r =
     \<lparr>seg_ID = 0, seg_Start = off, seg_End = off + 10, seg_Text = res_Text r\<rparr>"

definition chunk_emits :: "nat \<Rightarrow> TranscriptionResult \<Rightarrow> real \<Rightarrow> Segment list" where
  "chunk_emits i r off =
     (if res_Segments r = [] then (if 0 < i then [placeholder_segment off r] else [])
      else map (shift_segment off) (res_Segments r))"

fun all_emits :: "nat \<Rightarrow> TranscriptionResult list \<Rightarrow> AudioChunk list \<Rightarrow> Segment list" where
  "all_emits i [] chunks = []"
| "all_emits i (r # rs) chunks =
     chunk_emits i r (chunk_StartOffset (chunks ! i)) @ all_emits (Suc i) rs chunks"

fun renumber :: "int \<Rightarrow> Segment list \<Rightarrow> Segment list" where
  "renumber n [] = []"
| "renumber n (s # ss) =
     \<lparr>seg_ID = n, seg_Start = seg_Start s, seg_End = seg_End s, seg_Text = seg_Text s\<rparr>
     # renumber (n + 1) ss"

fun count_emits :: "nat \<Rightarrow> TranscriptionResult list \<Rightarrow> nat" where
  "count_emits i [] = 0"
| "count_emits i (r # rs) =
     (if res_Segments r = [] then (if 0 < i then 1 else 0) else length (res_Segments r))
     + count_emits (Suc i) rs"

definition emitted_before :: "TranscriptionResult list \<Rightarrow> nat \<Rightarrow> nat" where
  "emitted_before rs i = count_emits 0 (take i rs)"

text \<open>
  The transcript text as the specification words it: every chunk's text, each made to end
  with a line break.
\<close>

definition ensure_line_break :: "string \<Rightarrow> string" where
  "ensure_line_break t = (if has_newline_suffix t then t else t @ [newline])"

definition spec_text :: "TranscriptionResult list \<Rightarrow> string" where
  "spec_text rs = concat (map (\<lambda>r. ensure_line_break (res_Text r)) rs)"

text \<open>
  What one chunk contributes to the merged text in the source: nothing when its text is
  empty, otherwise its text made to end with a line break.
\<close>

definition text_piece :: "TranscriptionResult \<Rightarrow> string" where
  "text_piece r = (if res_Text r = [] then [] else ensure_line_break (res_Text r))"

subsection \<open>SilenceEventParser: \<^verbatim>\<open>detectSilence\<close> and \<^verbatim>\<open>parseSilenceTime\<close>\<close>

text \<open>
  The functions of Go's \<^verbatim>\<open>strings\<close> package that the parser calls, on byte strings.
  \<open>Index s substr\<close> is the position of the first occurrence of \<open>substr\<close> in \<open>s\<close>;
  \<open>Split\<close> cuts at the successive non-overlapping occurrences of the separator, as the
  loop of \<^verbatim>\<open>genSplit\<close> does. The source only passes non-empty constant separators; for
  the empty separator the model cuts after every byte. \<open>TrimSpace\<close> strips the ASCII
  white space characters (the media tool's report is ASCII).
\<close>

fun Index :: "string \<Rightarrow> string \<Rightarrow> nat option" where
  "Index [] substr = (if substr = [] then Some 0 else None)"
| "Index (c # cs) substr =
     (if prefix substr (c # cs) then Some 0 else map_option Suc (Index cs substr))"

definition Contains :: "string \<Rightarrow> string \<Rightarrow> bool" where
  "Contains s substr \<longleftrightarrow> Index s substr \<noteq> None"

function Split :: "string \<Rightarrow> string \<Rightarrow> string list" where
  "Split s sep =
     (if sep = [] then map (\<lambda>c. [c]) s
      else (case Index s sep of
              None \<Rightarrow> [s]
            | Some i \<Rightarrow> take i s # Split (drop (i + length sep) s) sep))"
  by pat_completeness auto
termination
proof (relation "measure (\<lambda>(s, sep). length s)")
  show "wf (measure (\<lambda>(s, sep). length s))" by simp
next
  fix s sep :: string and i :: nat
  assume sep: "sep \<noteq> []" and idx: "Index s sep = Some i"
  have bound: "Index t sep = Some k \<Longrightarrow> k + length sep \<le> length t" for t k
  proof (induction t arbitrary: k)
    case Nil
    then show ?case by (simp split: if_splits)
  next
    case (Cons c cs)
    show ?case
    proof (cases "prefix sep (c # cs)")
      case True
      then show ?thesis using Cons.prems prefix_length_le[of sep "c # cs"] by simp
    next
      case False
      then obtain k' where "Index cs sep = Some k'" "k = Suc k'"
        using Cons.prems by auto
      then show ?thesis using Cons.IH[of k'] by simp
    qed
  qed
  from bound[OF idx] sep
  show "((drop (i + length sep) s, sep), (s, sep)) \<in> measure (\<lambda>(s, sep). length s)"
    by (cases sep) simp_all
qed

definition is_space :: "char \<Rightarrow> bool" where
  "is_space c \<longleftrightarrow> c \<in> {CHR 0x09, CHR 0x0A, CHR 0x0B, CHR 0x0C, CHR 0x0D, CHR 0x20}"

definition TrimSpace :: "string \<Rightarrow> string" where
  "TrimSpace s = rev (dropWhile is_space (rev (dropWhile is_space s)))"

text \<open>
  \<^verbatim>\<open>parseSilenceTime\<close>. The parameter \<open>scan\<close> stands for the library call
  \<^verbatim>\<open>fmt.Sscanf(s, "%f", &t)\<close>: \<open>Some t\<close> when it returns no error. With a non-empty
  separator \<^verbatim>\<open>strings.Split\<close> never returns an empty slice, so \<^verbatim>\<open>parts[0]\<close> always
  exists; the model's \<open>[]\<close> case cannot be reached (lemma \<open>Split_not_Nil\<close>).
\<close>

definition parseSilenceTime :: "(string \<Rightarrow> real option) \<Rightarrow> string \<Rightarrow> real option" where
  "parseSilenceTime scan s =
     (case Split s ''|'' of
        [] \<Rightarrow> None
      | part0 # _ \<Rightarrow> scan (TrimSpace part0))"

text \<open>
  The time carried by a marker line: \<^verbatim>\<open>parts := strings.Split(line, marker)\<close>, then, when
  \<^verbatim>\<open>len(parts) > 1\<close>, \<^verbatim>\<open>parseSilenceTime(strings.TrimSpace(parts[1]))\<close>.
\<close>

definition marker_time :: "(string \<Rightarrow> real option) \<Rightarrow> string \<Rightarrow> string \<Rightarrow> real option" where
  "marker_time scan marker line =
     (case Split line marker of
        _ # part1 # _ \<Rightarrow> parseSilenceTime scan (TrimSpace part1)
      | _ \<Rightarrow> None)"

text \<open>
  The body of the \<^verbatim>\<open>for _, line := range lines\<close> loop. The state is the slice
  \<^verbatim>\<open>points\<close> and the variable \<^verbatim>\<open>currentStart\<close>.
\<close>

definition silence_step ::
  "(string \<Rightarrow> real option) \<Rightarrow> real SilencePoint list \<times> real \<Rightarrow> string \<Rightarrow> real SilencePoint list \<times> real" where
  "silence_step scan st line =
     (let points = fst st; currentStart = snd st in
      if Contains line ''silence_start:'' then
        (case marker_time scan ''silence_start:'' line of
           Some start \<Rightarrow> (points, start)
         | None \<Rightarrow> (points, currentStart))
      else if Contains line ''silence_end:'' then
        (case marker_time scan ''silence_end:'' line of
           Some end \<Rightarrow> (points @ [\<lparr>sp_Start = currentStart, sp_End = end\<rparr>], currentStart)
         | None \<Rightarrow> (points, currentStart))
      else (points, currentStart))"

text \<open>
  The loop over the lines, from \<^verbatim>\<open>points = nil\<close> and \<^verbatim>\<open>currentStart = 0\<close> (the zero
  value of \<^verbatim>\<open>var currentStart float64\<close>).
\<close>

definition silence_loop :: "(string \<Rightarrow> real option) \<Rightarrow> string list \<Rightarrow> real SilencePoint list \<times> real" where
  "silence_loop scan lines = foldl (silence_step scan) ([], 0) lines"

definition parse_silence :: "(string \<Rightarrow> real option) \<Rightarrow> string list \<Rightarrow> real SilencePoint list" where
  "parse_silence scan lines = fst (silence_loop scan lines)"

datatype go_error = SilenceDetectFailed | CreateChunkFailed | CreateLastChunkFailed

text \<open>
  \<^verbatim>\<open>detectSilence\<close>. The argument \<open>combinedOutput\<close> is what \<^verbatim>\<open>cmd.CombinedOutput()\<close>
  returned: \<open>None\<close> when the command failed, otherwise the text it printed.
\<close>

definition detectSilence ::
  "(string \<Rightarrow> real option) \<Rightarrow> string option \<Rightarrow> go_error + real SilencePoint list" where
  "detectSilence scan combinedOutput =
     (case combinedOutput of
        None \<Rightarrow> Inl SilenceDetectFailed
      | Some output \<Rightarrow> Inr (parse_silence scan (Split output [newline])))"

text \<open>
  A scanner for the witnesses: \<^verbatim>\<open>%f\<close> on a plain decimal numeral, that is an optional
  sign, digits and an optional fraction, read up to the first other character. Exponents,
  hexadecimal numerals, infinities and NaN are not modelled (the scanner fails on a token
  without digits and ignores what follows the numeral); the theory applies it to plain
  decimal numerals only.
\<close>

definition is_digit :: "char \<Rightarrow> bool" where
  "is_digit c \<longleftrightarrow> c \<in> set ''0123456789''"

definition digit_value :: "char \<Rightarrow> nat" where
  "digit_value c = length (takeWhile (\<lambda>d. d \<noteq> c) ''0123456789'')"

definition digits_value :: "string \<Rightarrow> nat" where
  "digits_value ds = foldl (\<lambda>a c. 10 * a + digit_value c) 0 ds"

definition scan_decimal :: "string \<Rightarrow> real option" where
  "scan_decimal s =
     (let neg = (s \<noteq> [] \<and> hd s = CHR ''-'');
          body = (if s \<noteq> [] \<and> (hd s = CHR ''-'' \<or> hd s = CHR ''+'') then tl s else s);
          ip = takeWhile is_digit body;
          rest = dropWhile is_digit body;
          fp = (if rest \<noteq> [] \<and> hd rest = CHR ''.'' then takeWhile is_digit (tl rest) else [])
      in if ip = [] \<and> fp = [] then None
         else (let v = real (digits_value ip) + real (digits_value fp) / 10 ^ length fp
               in Some (if neg then - v else v)))"

text \<open>
  Vocabulary for the parser's properties: the lines that are read as end markers with a
  time, in order, and the time of the last begin marker that was read, 0 when there is
  none.
\<close>

definition end_time :: "(string \<Rightarrow> real option) \<Rightarrow> string \<Rightarrow> real option" where
  "end_time scan line =
     (if \<not> Contains line ''silence_start:'' \<and> Contains line ''silence_end:''
      then marker_time scan ''silence_end:'' line else None)"

definition begin_time :: "(string \<Rightarrow> real option) \<Rightarrow> string \<Rightarrow> real option" where
  "begin_time scan line =
     (if Contains line ''silence_start:'' then marker_time scan ''silence_start:'' line else None)"

definition end_times :: "(string \<Rightarrow> real option) \<Rightarrow> string list \<Rightarrow> real list" where
  "end_times scan lines = List.map_filter (end_time scan) lines"

definition last_begin :: "(string \<Rightarrow> real option) \<Rightarrow> string list \<Rightarrow> real" where
  "last_begin scan lines =
     (case List.map_filter (begin_time scan) (rev lines) of [] \<Rightarrow> 0 | t # _ \<Rightarrow> t)"

subsection \<open>ChunkExtractor: \<^verbatim>\<open>createAudioChunks\<close>\<close>

text \<open>
  The function runs the media tool once per chunk and removes files. The world it acts on
  is the set of paths that exist. The parameters stand for what the source takes from
  outside: \<open>chunkPath i\<close> is the path built for chunk \<open>i\<close> (it contains the clock),
  \<open>run i\<close> is the outcome of \<^verbatim>\<open>cmd.Run()\<close> for chunk \<open>i\<close>, and \<open>duration\<close> is what
  \<^verbatim>\<open>getAudioDuration\<close> returned (the source drops its error, so it is 0 when the probe
  failed). A successful run creates its output file. A failed run returns an error; the
  tool opens its output before it encodes, so the run may have left a partial file at its
  path, and the outcome says whether it did. \<^verbatim>\<open>os.Remove\<close>, whose error the source
  ignores, is taken to delete the file.
\<close>

datatype run_outcome = Succeeded | Failed bool

text \<open>The files after a run of the media tool that writes to \<open>path\<close>.\<close>

definition after_run :: "run_outcome \<Rightarrow> string \<Rightarrow> string set \<Rightarrow> string set" where
  "after_run outcome path files =
     (case outcome of
        Succeeded \<Rightarrow> insert path files
      | Failed left \<Rightarrow> (if left then insert path files else files))"

text \<open>The clean-up loop \<^verbatim>\<open>for _, c := range chunks { os.Remove(c.Path) }\<close>.\<close>

definition remove_all :: "AudioChunk list \<Rightarrow> string set \<Rightarrow> string set" where
  "remove_all chunks files = foldl (\<lambda>fs c. fs - {chunk_Path c}) files chunks"

text \<open>
  The loop \<^verbatim>\<open>for i, endTime := range splitTimes\<close>, with the variables \<^verbatim>\<open>startTime\<close> and
  \<^verbatim>\<open>chunks\<close> as state, next to the files. On an error the source removes the chunks
  appended so far and returns; the path of the failing run is not among them.
\<close>

fun chunk_loop ::
  "(nat \<Rightarrow> string) \<Rightarrow> (nat \<Rightarrow> run_outcome) \<Rightarrow> nat \<Rightarrow> real list \<Rightarrow> real \<Rightarrow> AudioChunk list
     \<Rightarrow> string set \<Rightarrow> (go_error + real \<times> AudioChunk list) \<times> string set" where
  "chunk_loop chunkPath run i [] startTime chunks files = (Inr (startTime, chunks), files)"
| "chunk_loop chunkPath run i (endTime # rest) startTime chunks files =
     (let files1 = after_run (run i) (chunkPath i) files in
      if run i \<noteq> Succeeded then (Inl CreateChunkFailed, remove_all chunks files1)
      else chunk_loop chunkPath run (Suc i) rest endTime
             (chunks @ [\<lparr>chunk_Path = chunkPath i, chunk_StartOffset = startTime\<rparr>])
             files1)"

definition createAudioChunks ::
  "(nat \<Rightarrow> string) \<Rightarrow> (nat \<Rightarrow> run_outcome) \<Rightarrow> real \<Rightarrow> real list \<Rightarrow> string set
     \<Rightarrow> (go_error + AudioChunk list) \<times> string set" where
  "createAudioChunks chunkPath run duration splitTimes files =
     (case chunk_loop chunkPath run 0 splitTimes 0 [] files of
        (Inl e, files1) \<Rightarrow> (Inl e, files1)
      | (Inr (startTime, chunks), files1) \<Rightarrow>
          if startTime < duration then
            (let n = length splitTimes;
                 files2 = after_run (run n) (chunkPath n) files1 in
             if run n \<noteq> Succeeded
             then (Inl CreateLastChunkFailed, remove_all chunks files2)
             else (Inr (chunks @ [\<lparr>chunk_Path = chunkPath n, chunk_StartOffset = startTime\<rparr>]),
                   files2))
          else (Inr chunks, files1))"

subsection \<open>Subtitle timestamps: \<^verbatim>\<open>formatSRTTime\<close>\<close>

text \<open>
  The conversions \<^verbatim>\<open>int(x)\<close>, which drops the fraction, and \<^verbatim>\<open>float64(n)\<close>. Go leaves
  \<^verbatim>\<open>int(x)\<close> to the implementation when \<open>x\<close> does not fit 64 bits; the model returns the
  truncated value there too.
\<close>

definition go_int :: "rat \<Rightarrow> int" where
  "go_int x = (if 0 \<le> x then \<lfloor>x\<rfloor> else \<lceil>x\<rceil>)"

definition float64 :: "int \<Rightarrow> rat" where
  "float64 n = round_binary64 (of_int n)"

text \<open>
  \<^verbatim>\<open>%0wd\<close> of \<^verbatim>\<open>fmt.Sprintf\<close>: the decimal digits, a minus sign for a negative number,
  and zeros after the sign up to the width \<open>w\<close>; a longer number is not cut.
\<close>

definition digit_char :: "nat \<Rightarrow> char" where
  "digit_char d = ''0123456789'' ! d"

fun decimal :: "nat \<Rightarrow> string" where
  "decimal n = (if n < 10 then [digit_char n] else decimal (n div 10) @ [digit_char (n mod 10)])"

definition sprintf_0d :: "nat \<Rightarrow> int \<Rightarrow> string" where
  "sprintf_0d w n =
     (let ds = decimal (nat \<bar>n\<bar>); sign = (if n < 0 then ''-'' else [])
      in sign @ replicate (w - length sign - length ds) (CHR ''0'') @ ds)"

definition formatSRTTime :: "rat \<Rightarrow> string" where
  "formatSRTTime seconds =
     (let hours = go_int (fdiv seconds 3600);
          minutes = go_int (fdiv (fsub seconds (fmul (float64 hours) 3600)) 60);
          secs = go_int (fsub (fsub seconds (fmul (float64 hours) 3600))
                              (fmul (float64 minutes) 60));
          millis = go_int (fmul (fsub (fsub (fsub seconds (fmul (float64 hours) 3600))
                                            (fmul (float64 minutes) 60))
                                      (float64 secs))
                                1000)
      in sprintf_0d 2 hours @ '':'' @ sprintf_0d 2 minutes @ '':'' @ sprintf_0d 2 secs @ '',''
         @ sprintf_0d 3 millis)"

section \<open>Rounding\<close>

lemma floorlog2_eq:
  assumes "2 ^ k \<le> n" "n < 2 ^ Suc k"
  shows "floorlog 2 n = Suc k"
proof -
  have "floorlog 2 n \<le> Suc k"
    using assms(2) by (intro floorlog_leI) simp_all
  moreover have "Suc k \<le> floorlog 2 n"
    using assms(1) by (intro floorlog_ge_SucI) simp_all
  ultimately show ?thesis by simp
qed

lemma exponent_of_eq:
  assumes lo: "pow2 e \<le> \<bar>x\<bar>" and hi: "\<bar>x\<bar> < pow2 (e + 1)"
  shows "exponent_of x = e"
proof (cases "1 \<le> \<bar>x\<bar>")
  case True
  have e0: "0 \<le> e"
  proof (rule ccontr)
    assume "\<not> 0 \<le> e"
    then have "e + 1 \<le> 0" by simp
    then have "pow2 (e + 1) \<le> 1"
      by (cases "e + 1 = 0") (simp_all add: pow2_def divide_le_eq)
    with hi True show False by simp
  qed
  define k where "k = nat e"
  have lo': "(2::rat) ^ k \<le> \<bar>x\<bar>" and hi': "\<bar>x\<bar> < (2::rat) ^ Suc k"
    using lo hi e0 by (simp_all add: pow2_def k_def nat_add_distrib)
  define n where "n = nat \<lfloor>\<bar>x\<bar>\<rfloor>"
  have fl0: "0 \<le> \<lfloor>\<bar>x\<bar>\<rfloor>" by simp
  have "(2::int) ^ k \<le> \<lfloor>\<bar>x\<bar>\<rfloor>"
    using lo' by (simp add: le_floor_iff)
  then have n1: "2 ^ k \<le> n"
    unfolding n_def using fl0 by (simp add: le_nat_iff)
  have "\<lfloor>\<bar>x\<bar>\<rfloor> < (2::int) ^ Suc k"
    using hi' by (simp add: floor_less_iff)
  then have n2: "n < 2 ^ Suc k"
    unfolding n_def using fl0 by (simp add: nat_less_iff)
  have "floorlog 2 n = Suc k" using n1 n2 by (rule floorlog2_eq)
  then show ?thesis
    using True e0 by (simp add: exponent_of_def Let_def n_def k_def)
next
  case False
  then have a1: "\<bar>x\<bar> < 1" by simp
  have apos: "0 < \<bar>x\<bar>"
  proof -
    have "0 < pow2 e" by (simp add: pow2_def)
    with lo show ?thesis by simp
  qed
  have eneg: "e < 0"
  proof (rule ccontr)
    assume "\<not> e < 0"
    then have "1 \<le> pow2 e" by (simp add: pow2_def)
    with lo a1 show False by simp
  qed
  define j where "j = nat (- e) - 1"
  have ej: "e = - int (Suc j)" using eneg by (simp add: j_def)
  have ne: "nat (- e) = Suc j" using eneg by (simp add: j_def)
  have "pow2 e = 1 / 2 ^ Suc j"
    using eneg ne by (simp add: pow2_def)
  then have lo': "1 / 2 ^ Suc j \<le> \<bar>x\<bar>"
    using lo by simp
  have "pow2 (e + 1) = 1 / 2 ^ j"
  proof (cases j)
    case 0
    then have "e + 1 = 0" using ej by simp
    then show ?thesis using 0 by (simp add: pow2_def)
  next
    case (Suc j')
    then have "\<not> 0 \<le> e + 1" "nat (- (e + 1)) = j" using ej by simp_all
    then show ?thesis by (simp add: pow2_def)
  qed
  then have hi': "\<bar>x\<bar> < 1 / 2 ^ j"
    using hi by simp
  define y where "y = 1 / \<bar>x\<bar>"
  have y1: "y \<le> 2 ^ Suc j"
  proof -
    have "1 \<le> \<bar>x\<bar> * 2 ^ Suc j" using lo' by (simp add: field_simps)
    then show ?thesis unfolding y_def using apos by (simp add: field_simps)
  qed
  have y2: "2 ^ j < y"
  proof -
    have "\<bar>x\<bar> * 2 ^ j < 1" using hi' by (simp add: field_simps)
    then show ?thesis unfolding y_def using apos by (simp add: field_simps)
  qed
  define m where "m = nat (\<lceil>y\<rceil> - 1)"
  have c1: "\<lceil>y\<rceil> \<le> (2::int) ^ Suc j" using y1 by (simp add: ceiling_le_iff)
  have c2: "(2::int) ^ j < \<lceil>y\<rceil>" using y2 by (simp add: less_ceiling_iff)
  have "(0::int) < 2 ^ j" by simp
  with c2 have c0: "0 \<le> \<lceil>y\<rceil> - 1" by linarith
  have "int m = \<lceil>y\<rceil> - 1" unfolding m_def using c0 by simp
  then have "int m < 2 ^ Suc j" "2 ^ j \<le> int m" using c1 c2 by simp_all
  then have "int m < int (2 ^ Suc j)" "int (2 ^ j) \<le> int m" by simp_all
  then have m2: "m < 2 ^ Suc j" and m1: "2 ^ j \<le> m"
    unfolding of_nat_less_iff of_nat_le_iff by simp_all
  have "floorlog 2 m = Suc j" using m1 m2 by (rule floorlog2_eq)
  then show ?thesis
    using False ej by (simp add: exponent_of_def Let_def m_def y_def)
qed

lemma round_half_even_eq:
  assumes "of_int n - 1 / 2 < t" "t < of_int n + 1 / 2"
  shows "round_half_even t = n"
proof -
  have f: "\<lfloor>t\<rfloor> = n \<or> \<lfloor>t\<rfloor> = n - 1"
  proof -
    have "of_int (n - 1) \<le> t" using assms(1) by simp
    then have "n - 1 \<le> \<lfloor>t\<rfloor>" by (simp add: le_floor_iff)
    moreover have "t < of_int (n + 1)" using assms(2) by simp
    then have "\<lfloor>t\<rfloor> < n + 1" using floor_less_iff[of t "n + 1"] by simp
    ultimately show ?thesis by linarith
  qed
  then show ?thesis
  proof
    assume a: "\<lfloor>t\<rfloor> = n"
    then have "t - of_int \<lfloor>t\<rfloor> < 1 / 2" using assms(2) by simp
    then show ?thesis using a by (simp add: round_half_even_def Let_def)
  next
    assume a: "\<lfloor>t\<rfloor> = n - 1"
    then have "1 / 2 < t - of_int \<lfloor>t\<rfloor>" using assms(1) by simp
    then show ?thesis using a by (simp add: round_half_even_def Let_def)
  qed
qed

lemma round_binary64_eq:
  assumes "pow2 e \<le> \<bar>x\<bar>" "\<bar>x\<bar> < pow2 (e + 1)"
    and "of_int n - 1 / 2 < x / pow2 (e - 52)" "x / pow2 (e - 52) < of_int n + 1 / 2"
  shows "round_binary64 x = of_int n * pow2 (e - 52)"
proof -
  have "0 < pow2 e" by (simp add: pow2_def)
  then have nz: "x \<noteq> 0" using assms(1) by auto
  have "exponent_of x = e" using assms(1,2) by (rule exponent_of_eq)
  moreover have "round_half_even (x / pow2 (e - 52)) = n"
    using assms(3,4) by (rule round_half_even_eq)
  ultimately show ?thesis using nz by (simp add: round_binary64_def Let_def)
qed

lemma round_half_even_tie:
  assumes "t = of_int n + 1 / 2 \<or> t = of_int n - 1 / 2" "even n"
  shows "round_half_even t = n"
  using assms(1)
proof
  assume t: "t = of_int n + 1 / 2"
  have "\<lfloor>t\<rfloor> = n" unfolding t by (intro floor_unique) simp_all
  then show ?thesis using t assms(2) by (simp add: round_half_even_def Let_def)
next
  assume t: "t = of_int n - 1 / 2"
  have "\<lfloor>t\<rfloor> = n - 1" unfolding t by (intro floor_unique) simp_all
  then show ?thesis using t assms(2) by (simp add: round_half_even_def Let_def)
qed

lemma round_binary64_tie:
  assumes "pow2 e \<le> \<bar>x\<bar>" "\<bar>x\<bar> < pow2 (e + 1)"
    and "x / pow2 (e - 52) = of_int n + 1 / 2 \<or> x / pow2 (e - 52) = of_int n - 1 / 2"
    and "even n"
  shows "round_binary64 x = of_int n * pow2 (e - 52)"
proof -
  have "0 < pow2 e" by (simp add: pow2_def)
  then have nz: "x \<noteq> 0" using assms(1) by auto
  have "exponent_of x = e" using assms(1,2) by (rule exponent_of_eq)
  moreover have "round_half_even (x / pow2 (e - 52)) = n"
    using assms(3,4) by (rule round_half_even_tie)
  ultimately show ?thesis using nz by (simp add: round_binary64_def Let_def)
qed

section \<open>The planner\<close>

lemma silence_diff_nonneg: "0 \<le> silence_diff t x"
  by (simp add: silence_diff_def)



































lemma find_bestTime_single:
  assumes "fmul t (1 / 2) < e" "e < fmul t (3 / 2)" "\<bar>fsub e t\<bar> < L"
  shows "find_bestTime L t [\<lparr>sp_Start = s, sp_End = e\<rparr>] = e"
  using assms by (simp add: find_bestTime_def pick_silence_def Let_def abs_if)

lemma split_loop_step:
  assumes "cur < D" "find_bestTime L cur sps = b" "b < D"
  shows "split_loop D L sps cur acc = split_loop D L sps (fadd b L) (acc @ [b])"
  using assms by (subst split_loop.simps) (simp add: Let_def)

lemma split_loop_cycle:
  assumes c: "cur < D" and b: "find_bestTime L cur sps = b" and bd: "b < D"
    and again: "fadd b L = cur"
  shows "split_loop D L sps cur acc = None"
proof (cases "split_loop D L sps cur acc")
  case None
  then show ?thesis .
next
  case (Some y)
  have "\<not> (D = D \<and> L = L \<and> sps = sps \<and> cur = cur)"
  proof (rule split_loop.raw_induct[where
        P = "\<lambda>D' L' sps' cur' acc' y. \<not> (D' = D \<and> L' = L \<and> sps' = sps \<and> cur' = cur)", OF _ Some])
    fix f :: "rat \<Rightarrow> rat \<Rightarrow> rat SilencePoint list \<Rightarrow> rat \<Rightarrow> rat list \<Rightarrow> rat list option"
    fix D' L' cur' :: rat and sps' :: "rat SilencePoint list" and acc' y' :: "rat list"
    assume IH: "\<And>D'' L'' sps'' cur'' acc'' y. f D'' L'' sps'' cur'' acc'' = Some y \<Longrightarrow>
                  \<not> (D'' = D \<and> L'' = L \<and> sps'' = sps \<and> cur'' = cur)"
    assume eq: "(if cur' < D'
          then let bestTime = find_bestTime L' cur' sps'
               in if D' \<le> bestTime then Some acc'
                  else f D' L' sps' (fadd bestTime L') (acc' @ [bestTime])
          else Some acc') = Some y'"
    show "\<not> (D' = D \<and> L' = L \<and> sps' = sps \<and> cur' = cur)"
    proof
      assume a: "D' = D \<and> L' = L \<and> sps' = sps \<and> cur' = cur"
      then have "f D L sps cur (acc' @ [b]) = Some y'"
        using eq c b bd again by (simp add: Let_def)
      from IH[OF this] show False by simp
    qed
  qed
  then show ?thesis by simp
qed

text \<open>
  C2. The claim does not hold of the source. For a file of 584.709 s planned in 3 chunks
  the ideal duration is 194.903; with a silence interval ending at 247.594 the first split
  is 247.594, and the next target, 247.594 + 194.903, is a tie that binary64 rounds down.
  The distance from 247.594 to that target is then below the ideal duration by one unit in
  the last place, so 247.594 is selected again, the target is the same again, and the
  loop records 247.594 for ever: \<^verbatim>\<open>calculateSplitTimes\<close> never returns, and what it
  records is not strictly increasing.
\<close>

theorem calculateSplitTimes_repeats_split:
  "calculateSplitTimes (round_binary64 (584709 / 1000))
     (fdiv (round_binary64 (584709 / 1000)) 3)
     [\<lparr>sp_Start = 247, sp_End = round_binary64 (247594 / 1000)\<rparr>] = None"
proof -
  have D: "round_binary64 (584709 / 1000) = 5143154754922217 / 8796093022208"
    using round_binary64_eq[of 9 "584709 / 1000" 5143154754922217] by (simp add: pow2_def)
  have E: "round_binary64 (247594 / 1000) = 4355719711481135 / 17592186044416"
    using round_binary64_eq[of 7 "247594 / 1000" 8711439422962270] by (simp add: pow2_def)
  have L0: "round_binary64 (5143154754922217 / 8796093022208 / 3) = 6857539673229623 / 35184372088832"
    using round_binary64_eq[of 7 "5143154754922217 / 8796093022208 / 3" 6857539673229623] by (simp add: pow2_def)
  have L: "fdiv (5143154754922217 / 8796093022208) 3 = 6857539673229623 / 35184372088832"
    using L0 by (simp only: fdiv_def)
  have h1r: "round_binary64 (6857539673229623 / 35184372088832 * (1 / 2)) = 6857539673229623 / 70368744177664"
    using round_binary64_eq[of 6 "6857539673229623 / 35184372088832 * (1 / 2)" 6857539673229623] by (simp add: pow2_def)
  have k1r: "round_binary64 (6857539673229623 / 35184372088832 * (3 / 2)) = 5143154754922217 / 17592186044416"
    using round_binary64_eq[of 8 "6857539673229623 / 35184372088832 * (3 / 2)" 5143154754922217] by (simp add: pow2_def)
  have d1r: "round_binary64 (4355719711481135 / 17592186044416 - 6857539673229623 / 35184372088832) = 1853899749732647 / 35184372088832"
    using round_binary64_eq[of 5 "4355719711481135 / 17592186044416 - 6857539673229623 / 35184372088832" 7415598998930588] by (simp add: pow2_def)
  have Tr: "round_binary64 (4355719711481135 / 17592186044416 + 6857539673229623 / 35184372088832) = 3892244774047973 / 8796093022208"
    using round_binary64_tie[of 8 "4355719711481135 / 17592186044416 + 6857539673229623 / 35184372088832" 7784489548095946] by (simp add: pow2_def)
  have h2r: "round_binary64 (3892244774047973 / 8796093022208 * (1 / 2)) = 3892244774047973 / 17592186044416"
    using round_binary64_eq[of 7 "3892244774047973 / 8796093022208 * (1 / 2)" 7784489548095946] by (simp add: pow2_def)
  have k2r: "round_binary64 (3892244774047973 / 8796093022208 * (3 / 2)) = 729795895133995 / 1099511627776"
    using round_binary64_tie[of 9 "3892244774047973 / 8796093022208 * (3 / 2)" 5838367161071960] by (simp add: pow2_def)
  have d2r: "round_binary64 (4355719711481135 / 17592186044416 - 3892244774047973 / 8796093022208) = - (3428769836614811 / 17592186044416)"
    using round_binary64_eq[of 7 "4355719711481135 / 17592186044416 - 3892244774047973 / 8796093022208" "- 6857539673229622"] by (simp add: pow2_def)
  have h1: "fmul (6857539673229623 / 35184372088832) (1 / 2) < 4355719711481135 / 17592186044416"
    unfolding fmul_def h1r by simp
  have k1: "4355719711481135 / 17592186044416 < fmul (6857539673229623 / 35184372088832) (3 / 2)"
    unfolding fmul_def k1r by simp
  have d1: "\<bar>fsub (4355719711481135 / 17592186044416) (6857539673229623 / 35184372088832)\<bar> < 6857539673229623 / 35184372088832"
    unfolding fsub_def d1r by simp
  have T: "fadd (4355719711481135 / 17592186044416) (6857539673229623 / 35184372088832) = 3892244774047973 / 8796093022208"
    using Tr by (simp only: fadd_def)
  have h2: "fmul (3892244774047973 / 8796093022208) (1 / 2) < 4355719711481135 / 17592186044416"
    unfolding fmul_def h2r by simp
  have k2: "4355719711481135 / 17592186044416 < fmul (3892244774047973 / 8796093022208) (3 / 2)"
    unfolding fmul_def k2r by simp
  have d2: "\<bar>fsub (4355719711481135 / 17592186044416) (3892244774047973 / 8796093022208)\<bar> < 6857539673229623 / 35184372088832"
    unfolding fsub_def d2r by simp
  let ?sps = "[\<lparr>sp_Start = 247, sp_End = 4355719711481135 / 17592186044416\<rparr>] :: rat SilencePoint list"
  have b1: "find_bestTime (6857539673229623 / 35184372088832) (6857539673229623 / 35184372088832) ?sps = 4355719711481135 / 17592186044416"
    using h1 k1 d1 by (rule find_bestTime_single)
  have b2: "find_bestTime (6857539673229623 / 35184372088832) (3892244774047973 / 8796093022208) ?sps = 4355719711481135 / 17592186044416"
    using h2 k2 d2 by (rule find_bestTime_single)
  have lt1: "(6857539673229623 / 35184372088832 :: rat) < 5143154754922217 / 8796093022208" by simp
  have lt2: "(4355719711481135 / 17592186044416 :: rat) < 5143154754922217 / 8796093022208" by simp
  have lt3: "(3892244774047973 / 8796093022208 :: rat) < 5143154754922217 / 8796093022208" by simp
  have "split_loop (5143154754922217 / 8796093022208) (6857539673229623 / 35184372088832) ?sps (6857539673229623 / 35184372088832) [] =
        split_loop (5143154754922217 / 8796093022208) (6857539673229623 / 35184372088832) ?sps (fadd (4355719711481135 / 17592186044416) (6857539673229623 / 35184372088832)) ([] @ [4355719711481135 / 17592186044416])"
    using lt1 b1 lt2 by (rule split_loop_step)
  also have "\<dots> = None"
    unfolding T using lt3 b2 lt2 T by (rule split_loop_cycle)
  finally show ?thesis
    unfolding calculateSplitTimes_def D E L .
qed

section \<open>The merger\<close>

lemma shift_segment_sel [simp]:
  "seg_ID (shift_segment off s) = seg_ID s"
  "seg_Start (shift_segment off s) = seg_Start s + off"
  "seg_End (shift_segment off s) = seg_End s + off"
  "seg_Text (shift_segment off s) = seg_Text s"
  by (simp_all add: shift_segment_def)

lemma foldl_append_segment:
  "foldl (append_segment off) st segs =
     st\<lparr>ms_Segments := ms_Segments st @ renumber (ms_segmentID st) (map (shift_segment off) segs),
        ms_segmentID := ms_segmentID st + int (length segs)\<rparr>"
proof (induction segs arbitrary: st)
  case Nil
  then show ?case by simp
next
  case (Cons s segs)
  show ?case
    by (simp add: Cons.IH) (simp add: append_segment_def add.assoc)
qed

lemma renumber_append:
  "renumber n (xs @ ys) = renumber n xs @ renumber (n + int (length xs)) ys"
  by (induction xs arbitrary: n) (simp_all add: add.assoc)

lemma length_renumber [simp]: "length (renumber n xs) = length xs"
  by (induction xs arbitrary: n) simp_all

lemma renumber_Nil_iff [simp]: "renumber n xs = [] \<longleftrightarrow> xs = []"
  by (cases xs) simp_all

lemma renumber_nth:
  "p < length xs \<Longrightarrow> renumber n xs ! p =
     \<lparr>seg_ID = n + int p, seg_Start = seg_Start (xs ! p), seg_End = seg_End (xs ! p),
      seg_Text = seg_Text (xs ! p)\<rparr>"
proof (induction xs arbitrary: n p)
  case Nil
  then show ?case by simp
next
  case (Cons x xs)
  then show ?case by (cases p) (simp_all add: add.assoc)
qed

lemma merge_step_segments:
  assumes "i < length chunks"
  shows "\<exists>st'. merge_step i (Some r) chunks st = Inr st' \<and>
           ms_Segments st' = ms_Segments st @
              renumber (ms_segmentID st) (chunk_emits i r (chunk_StartOffset (chunks ! i))) \<and>
           ms_segmentID st' = ms_segmentID st +
              int (length (chunk_emits i r (chunk_StartOffset (chunks ! i)))) \<and>
           ms_totalText st' = ms_totalText st @
              (if res_Text r = [] then [] else ensure_line_break (res_Text r))"
  using assms
  by (simp add: merge_step_def Let_def foldl_append_segment append_placeholder_def
      chunk_emits_def placeholder_segment_def set_language_def append_text_def
      ensure_line_break_def)


lemma merge_loop_ok:
  assumes "i + length rs \<le> length chunks"
  shows "\<exists>st'. merge_loop i (map Some rs) chunks st = Inr st' \<and>
           ms_Segments st' = ms_Segments st @ renumber (ms_segmentID st) (all_emits i rs chunks) \<and>
           ms_segmentID st' = ms_segmentID st + int (length (all_emits i rs chunks)) \<and>
           ms_totalText st' = ms_totalText st @ concat (map text_piece rs)"
  using assms
proof (induction rs arbitrary: i st)
  case Nil
  then show ?case by simp
next
  case (Cons r rs)
  let ?ce = "chunk_emits i r (chunk_StartOffset (chunks ! i))"
  have "i < length chunks" using Cons.prems by simp
  from merge_step_segments[OF this, of r st]
  obtain st1 where st1: "merge_step i (Some r) chunks st = Inr st1"
    "ms_Segments st1 = ms_Segments st @ renumber (ms_segmentID st) ?ce"
    "ms_segmentID st1 = ms_segmentID st + int (length ?ce)"
    "ms_totalText st1 = ms_totalText st @ text_piece r"
    unfolding text_piece_def by blast
  have "Suc i + length rs \<le> length chunks" using Cons.prems by simp
  from Cons.IH[OF this, of st1]
  obtain st' where st': "merge_loop (Suc i) (map Some rs) chunks st1 = Inr st'"
    "ms_Segments st' = ms_Segments st1 @ renumber (ms_segmentID st1) (all_emits (Suc i) rs chunks)"
    "ms_segmentID st' = ms_segmentID st1 + int (length (all_emits (Suc i) rs chunks))"
    "ms_totalText st' = ms_totalText st1 @ concat (map text_piece rs)"
    by blast
  have "merge_loop i (map Some (r # rs)) chunks st = Inr st'"
    using st1(1) st'(1) by simp
  moreover have "ms_Segments st' = ms_Segments st @ renumber (ms_segmentID st) (all_emits i (r # rs) chunks)"
    using st'(2) st1(2,3) by (simp add: renumber_append)
  moreover have "ms_segmentID st' = ms_segmentID st + int (length (all_emits i (r # rs) chunks))"
    using st'(3) st1(3) by simp
  moreover have "ms_totalText st' = ms_totalText st @ concat (map text_piece (r # rs))"
    using st'(4) st1(4) by simp
  ultimately show ?case by blast
qed

lemma mergeResults_ok:
  assumes "length rs \<le> length chunks"
  shows "\<exists>m. mergeResults (map Some rs) chunks = Inr m \<and>
           res_Segments m = renumber 1 (all_emits 0 rs chunks) \<and>
           res_Text m = concat (map text_piece rs) \<and>
           res_Duration m = (if res_Segments m = [] then 0 else seg_End (last (res_Segments m)))"
proof -
  let ?st0 = "\<lparr>ms_Language = [], ms_Segments = [], ms_segmentID = 1, ms_totalText = []\<rparr>"
  have "0 + length rs \<le> length chunks" using assms by simp
  from merge_loop_ok[OF this, of ?st0]
  obtain st' where st': "merge_loop 0 (map Some rs) chunks ?st0 = Inr st'"
    "ms_Segments st' = renumber 1 (all_emits 0 rs chunks)"
    "ms_totalText st' = concat (map text_piece rs)"
    by auto
  show ?thesis
    using st' by (simp add: mergeResults_def last_conv_nth)
qed

lemma length_all_emits: "length (all_emits i rs chunks) = count_emits i rs"
  by (induction rs arbitrary: i) (simp_all add: chunk_emits_def)

lemma length_chunk_emits:
  "length (chunk_emits i r off) =
     (if res_Segments r = [] then (if 0 < i then 1 else 0) else length (res_Segments r))"
  by (simp add: chunk_emits_def)

lemma all_emits_nth:
  assumes "k < length rs" "j < length (chunk_emits (i + k) (rs ! k) (chunk_StartOffset (chunks ! (i + k))))"
  shows "count_emits i (take k rs) + j < length (all_emits i rs chunks) \<and>
         all_emits i rs chunks ! (count_emits i (take k rs) + j) =
           chunk_emits (i + k) (rs ! k) (chunk_StartOffset (chunks ! (i + k))) ! j"
  using assms
proof (induction rs arbitrary: i k)
  case Nil
  then show ?case by simp
next
  case (Cons r rs)
  show ?case
  proof (cases k)
    case 0
    then show ?thesis using Cons.prems by (simp add: nth_append)
  next
    case (Suc k')
    have "k' < length rs" using Cons.prems Suc by simp
    moreover have "j < length (chunk_emits (Suc i + k') (rs ! k') (chunk_StartOffset (chunks ! (Suc i + k'))))"
      using Cons.prems Suc by simp
    ultimately have ih: "count_emits (Suc i) (take k' rs) + j < length (all_emits (Suc i) rs chunks) \<and>
         all_emits (Suc i) rs chunks ! (count_emits (Suc i) (take k' rs) + j) =
           chunk_emits (Suc i + k') (rs ! k') (chunk_StartOffset (chunks ! (Suc i + k'))) ! j"
      by (rule Cons.IH)
    show ?thesis
      using ih Suc by (simp add: nth_append length_chunk_emits add.assoc)
  qed
qed

lemma map_seg_ID_renumber:
  "map seg_ID (renumber n xs) = map (\<lambda>k. n + int k) [0..<length xs]"
proof (induction xs arbitrary: n)
  case Nil
  then show ?case by simp
next
  case (Cons x xs)
  have "[0..<Suc (length xs)] = 0 # map Suc [0..<length xs]"
    by (simp add: upt_conv_Cons map_Suc_upt del: upt_Suc)
  then show ?case by (simp add: Cons.IH comp_def add.assoc del: upt_Suc)
qed

lemma map_seg_Start_renumber: "map seg_Start (renumber n xs) = map seg_Start xs"
  by (induction xs arbitrary: n) simp_all

lemma count_emits_Suc:
  "k < length rs \<Longrightarrow> count_emits i (take (Suc k) rs) =
     count_emits i (take k rs) +
       (if res_Segments (rs ! k) = [] then (if 0 < i + k then 1 else 0)
        else length (res_Segments (rs ! k)))"
proof (induction rs arbitrary: i k)
  case Nil
  then show ?case by simp
next
  case (Cons r rs)
  then show ?case by (cases k) simp_all
qed

lemma upt_ids: "map (\<lambda>k. 1 + int k) [0..<n] = map int [1..<Suc n]"
proof -
  have "map int [1..<Suc n] = map int (map Suc [0..<n])"
    by (simp add: map_Suc_upt del: upt_Suc)
  then show ?thesis by (simp add: comp_def del: upt_Suc)
qed

lemma sorted_shift:
  "sorted (map seg_Start xs) \<Longrightarrow> sorted (map seg_Start (map (shift_segment off) xs))"
  by (induction xs) auto

lemma chunk_emits_starts:
  assumes "sorted (map seg_Start (res_Segments r))" "\<forall>s \<in> set (res_Segments r). 0 \<le> seg_Start s"
  shows "sorted (map seg_Start (chunk_emits i r off)) \<and>
         (\<forall>s \<in> set (chunk_emits i r off). off \<le> seg_Start s)"
  using assms sorted_shift[of "res_Segments r" off]
  by (auto simp: chunk_emits_def placeholder_segment_def)

lemma chunk_emits_upper:
  assumes "off \<le> nxt" "\<forall>s \<in> set (res_Segments r). seg_Start s + off \<le> nxt"
  shows "\<forall>s \<in> set (chunk_emits i r off). seg_Start s \<le> nxt"
  using assms by (auto simp: chunk_emits_def placeholder_segment_def)

lemma all_emits_sorted:
  assumes adj: "\<forall>k. Suc k < length rs \<longrightarrow>
                  chunk_StartOffset (chunks ! (i + k)) \<le> chunk_StartOffset (chunks ! (i + Suc k))"
    and loc: "\<forall>r \<in> set rs. sorted (map seg_Start (res_Segments r)) \<and>
                  (\<forall>s \<in> set (res_Segments r). 0 \<le> seg_Start s)"
    and inside: "\<forall>k. Suc k < length rs \<longrightarrow>
                  (\<forall>s \<in> set (res_Segments (rs ! k)).
                     seg_Start s + chunk_StartOffset (chunks ! (i + k))
                       \<le> chunk_StartOffset (chunks ! (i + Suc k)))"
  shows "sorted (map seg_Start (all_emits i rs chunks)) \<and>
         (\<forall>s \<in> set (all_emits i rs chunks). chunk_StartOffset (chunks ! i) \<le> seg_Start s)"
  using assms
proof (induction rs arbitrary: i)
  case Nil
  then show ?case by simp
next
  case (Cons r rs)
  let ?off = "chunk_StartOffset (chunks ! i)"
  let ?nxt = "chunk_StartOffset (chunks ! Suc i)"
  have ce: "sorted (map seg_Start (chunk_emits i r ?off))"
    "\<forall>s \<in> set (chunk_emits i r ?off). ?off \<le> seg_Start s"
    using chunk_emits_starts[of r i ?off] Cons.prems(2) by simp_all
  have adj': "\<forall>k. Suc k < length rs \<longrightarrow>
        chunk_StartOffset (chunks ! (Suc i + k)) \<le> chunk_StartOffset (chunks ! (Suc i + Suc k))"
  proof (intro allI impI)
    fix k assume "Suc k < length rs"
    then have "Suc (Suc k) < length (r # rs)" by simp
    from Cons.prems(1)[rule_format, OF this] show
      "chunk_StartOffset (chunks ! (Suc i + k)) \<le> chunk_StartOffset (chunks ! (Suc i + Suc k))"
      by simp
  qed
  have inside': "\<forall>k. Suc k < length rs \<longrightarrow>
        (\<forall>s \<in> set (res_Segments (rs ! k)).
           seg_Start s + chunk_StartOffset (chunks ! (Suc i + k))
             \<le> chunk_StartOffset (chunks ! (Suc i + Suc k)))"
  proof (intro allI impI)
    fix k assume "Suc k < length rs"
    then have "Suc (Suc k) < length (r # rs)" by simp
    from Cons.prems(3)[rule_format, OF this] show
      "\<forall>s \<in> set (res_Segments (rs ! k)).
           seg_Start s + chunk_StartOffset (chunks ! (Suc i + k))
             \<le> chunk_StartOffset (chunks ! (Suc i + Suc k))"
      by simp
  qed
  have loc': "\<forall>r \<in> set rs. sorted (map seg_Start (res_Segments r)) \<and>
                  (\<forall>s \<in> set (res_Segments r). 0 \<le> seg_Start s)"
    using Cons.prems(2) by simp
  from Cons.IH[OF adj' loc' inside']
  have ih: "sorted (map seg_Start (all_emits (Suc i) rs chunks))"
    "\<forall>s \<in> set (all_emits (Suc i) rs chunks). ?nxt \<le> seg_Start s"
    by simp_all
  show ?case
  proof (cases rs)
    case Nil
    then show ?thesis using ce by simp
  next
    case (Cons r' rs')
    then have lt: "Suc 0 < length (r # rs)" by simp
    have le: "?off \<le> ?nxt"
      using Cons.prems(1)[rule_format, OF lt] by simp
    have "\<forall>s \<in> set (res_Segments r). seg_Start s + ?off \<le> ?nxt"
      using Cons.prems(3)[rule_format, OF lt] by simp
    from chunk_emits_upper[OF le this]
    have up: "\<forall>s \<in> set (chunk_emits i r ?off). seg_Start s \<le> ?nxt" .
    have "sorted (map seg_Start (chunk_emits i r ?off) @ map seg_Start (all_emits (Suc i) rs chunks))"
      unfolding sorted_append using ce(1) ih up by fastforce
    moreover have "\<forall>s \<in> set (all_emits (Suc i) rs chunks). ?off \<le> seg_Start s"
      using ih(2) le by fastforce
    ultimately show ?thesis using ce(2) by auto
  qed
qed

lemmas merge_eval = mergeResults_def merge_step_def Let_def append_segment_def
  append_placeholder_def set_language_def append_text_def has_newline_suffix_def newline_def

text \<open>
  C3. Applied to the per-chunk results and their chunks, \<^verbatim>\<open>mergeResults\<close> returns a
  transcript whose segment ids are exactly \<open>1..k\<close>. Every input segment \<open>j\<close> of every
  chunk \<open>i\<close> appears once, at position \<open>emitted_before rs i + j\<close> (so in chunk order and
  in segment order), with its start and end shifted by the chunk's start offset and its
  text unchanged, and with the id given by its position. The duration is the end of the
  last segment, or 0 when there is none.
\<close>

theorem mergeResults_segments:
  assumes "length rs \<le> length chunks"
  shows "\<exists>m. mergeResults (map Some rs) chunks = Inr m \<and>
     map seg_ID (res_Segments m) = map int [1..<Suc (length (res_Segments m))] \<and>
     length (res_Segments m) = emitted_before rs (length rs) \<and>
     (\<forall>i<length rs.
        emitted_before rs i + length (res_Segments (rs ! i)) \<le> emitted_before rs (Suc i) \<and>
        (\<forall>j<length (res_Segments (rs ! i)).
           emitted_before rs i + j < length (res_Segments m) \<and>
           res_Segments m ! (emitted_before rs i + j) =
             \<lparr>seg_ID = int (emitted_before rs i + j) + 1,
              seg_Start = seg_Start (res_Segments (rs ! i) ! j) + chunk_StartOffset (chunks ! i),
              seg_End = seg_End (res_Segments (rs ! i) ! j) + chunk_StartOffset (chunks ! i),
              seg_Text = seg_Text (res_Segments (rs ! i) ! j)\<rparr>)) \<and>
     res_Duration m = (if res_Segments m = [] then 0 else seg_End (last (res_Segments m)))"
proof -
  obtain m where m: "mergeResults (map Some rs) chunks = Inr m"
    "res_Segments m = renumber 1 (all_emits 0 rs chunks)"
    "res_Duration m = (if res_Segments m = [] then 0 else seg_End (last (res_Segments m)))"
    using mergeResults_ok[OF assms] by blast
  have ids: "map seg_ID (res_Segments m) = map int [1..<Suc (length (res_Segments m))]"
    by (simp add: m(2) map_seg_ID_renumber upt_ids del: upt_Suc)
  have len: "length (res_Segments m) = emitted_before rs (length rs)"
    by (simp add: m(2) length_all_emits emitted_before_def)
  have blocks: "emitted_before rs i + length (res_Segments (rs ! i)) \<le> emitted_before rs (Suc i)"
    if "i < length rs" for i
    using count_emits_Suc[OF that, of 0] by (simp add: emitted_before_def)
  have pos: "emitted_before rs i + j < length (res_Segments m) \<and>
           res_Segments m ! (emitted_before rs i + j) =
             \<lparr>seg_ID = int (emitted_before rs i + j) + 1,
              seg_Start = seg_Start (res_Segments (rs ! i) ! j) + chunk_StartOffset (chunks ! i),
              seg_End = seg_End (res_Segments (rs ! i) ! j) + chunk_StartOffset (chunks ! i),
              seg_Text = seg_Text (res_Segments (rs ! i) ! j)\<rparr>"
    if i: "i < length rs" and j: "j < length (res_Segments (rs ! i))" for i j
  proof -
    let ?off = "chunk_StartOffset (chunks ! i)"
    have ne: "res_Segments (rs ! i) \<noteq> []" using j by auto
    then have ce: "chunk_emits i (rs ! i) ?off = map (shift_segment ?off) (res_Segments (rs ! i))"
      by (simp add: chunk_emits_def)
    have "j < length (chunk_emits (0 + i) (rs ! i) (chunk_StartOffset (chunks ! (0 + i))))"
      using j ce by simp
    from all_emits_nth[OF i this]
    have p: "emitted_before rs i + j < length (all_emits 0 rs chunks)"
      "all_emits 0 rs chunks ! (emitted_before rs i + j) = shift_segment ?off (res_Segments (rs ! i) ! j)"
      using ce j by (simp_all add: emitted_before_def)
    show ?thesis
      using p by (simp add: m(2) renumber_nth)
  qed
  show ?thesis
    using m(1,3) ids len blocks pos by blast
qed

theorem mergeResults_segments_witness:
  "length [\<lparr>res_Text = ''good morning'', res_Language = ''en'',
            res_Segments = [\<lparr>seg_ID = 1, seg_Start = 0, seg_End = 40, seg_Text = ''good''\<rparr>,
                            \<lparr>seg_ID = 2, seg_Start = 40, seg_End = 90, seg_Text = ''morning''\<rparr>],
            res_Duration = 0\<rparr>,
           \<lparr>res_Text = ''everyone'', res_Language = ''en'',
            res_Segments = [\<lparr>seg_ID = 1, seg_Start = 2, seg_End = 30, seg_Text = ''everyone''\<rparr>],
            res_Duration = 0\<rparr>]
     \<le> length [\<lparr>chunk_Path = ''c0.wav'', chunk_StartOffset = 0\<rparr>,
                \<lparr>chunk_Path = ''c1.wav'', chunk_StartOffset = 95\<rparr>] \<and>
   (\<exists>m. mergeResults
          (map Some
            [\<lparr>res_Text = ''good morning'', res_Language = ''en'',
              res_Segments = [\<lparr>seg_ID = 1, seg_Start = 0, seg_End = 40, seg_Text = ''good''\<rparr>,
                              \<lparr>seg_ID = 2, seg_Start = 40, seg_End = 90, seg_Text = ''morning''\<rparr>],
              res_Duration = 0\<rparr>,
             \<lparr>res_Text = ''everyone'', res_Language = ''en'',
              res_Segments = [\<lparr>seg_ID = 1, seg_Start = 2, seg_End = 30, seg_Text = ''everyone''\<rparr>],
              res_Duration = 0\<rparr>])
          [\<lparr>chunk_Path = ''c0.wav'', chunk_StartOffset = 0\<rparr>,
           \<lparr>chunk_Path = ''c1.wav'', chunk_StartOffset = 95\<rparr>] = Inr m \<and>
        map seg_ID (res_Segments m) = [1, 2, 3] \<and>
        res_Segments m ! 2 = \<lparr>seg_ID = 3, seg_Start = 97, seg_End = 125, seg_Text = ''everyone''\<rparr> \<and>
        res_Duration m = 125)"
  using mergeResults_segments
    [of "[\<lparr>res_Text = ''good morning'', res_Language = ''en'',
            res_Segments = [\<lparr>seg_ID = 1, seg_Start = 0, seg_End = 40, seg_Text = ''good''\<rparr>,
                            \<lparr>seg_ID = 2, seg_Start = 40, seg_End = 90, seg_Text = ''morning''\<rparr>],
            res_Duration = 0\<rparr>,
           \<lparr>res_Text = ''everyone'', res_Language = ''en'',
            res_Segments = [\<lparr>seg_ID = 1, seg_Start = 2, seg_End = 30, seg_Text = ''everyone''\<rparr>],
            res_Duration = 0\<rparr>]"
        "[\<lparr>chunk_Path = ''c0.wav'', chunk_StartOffset = 0\<rparr>,
          \<lparr>chunk_Path = ''c1.wav'', chunk_StartOffset = 95\<rparr>]"]
  by (simp add: merge_eval)

text \<open>
  C5. The merged segments are exactly the per-chunk contributions \<open>chunk_emits\<close>, numbered
  from 1: a chunk that is not the first and has no segments contributes exactly one
  placeholder, from the chunk's start offset to ten seconds later, carrying the chunk's
  whole text and the next id; the first chunk without segments contributes nothing. The
  witness is the example with offsets 0, 95 and 205 whose second chunk has no segments.
\<close>

theorem mergeResults_placeholder:
  assumes "length rs \<le> length chunks"
  shows "\<exists>m. mergeResults (map Some rs) chunks = Inr m \<and>
     res_Segments m = renumber 1 (all_emits 0 rs chunks) \<and>
     (\<forall>i<length rs. res_Segments (rs ! i) = [] \<longrightarrow>
        (if 0 < i then
           emitted_before rs (Suc i) = emitted_before rs i + 1 \<and>
           emitted_before rs i < length (res_Segments m) \<and>
           res_Segments m ! emitted_before rs i =
             \<lparr>seg_ID = int (emitted_before rs i) + 1,
              seg_Start = chunk_StartOffset (chunks ! i),
              seg_End = chunk_StartOffset (chunks ! i) + 10,
              seg_Text = res_Text (rs ! i)\<rparr>
         else emitted_before rs (Suc i) = emitted_before rs i))"
proof -
  obtain m where m: "mergeResults (map Some rs) chunks = Inr m"
    "res_Segments m = renumber 1 (all_emits 0 rs chunks)"
    using mergeResults_ok[OF assms] by blast
  have ph: "emitted_before rs (Suc i) = emitted_before rs i + 1 \<and>
           emitted_before rs i < length (res_Segments m) \<and>
           res_Segments m ! emitted_before rs i =
             \<lparr>seg_ID = int (emitted_before rs i) + 1,
              seg_Start = chunk_StartOffset (chunks ! i),
              seg_End = chunk_StartOffset (chunks ! i) + 10,
              seg_Text = res_Text (rs ! i)\<rparr>"
    if i: "i < length rs" and e: "res_Segments (rs ! i) = []" and pos: "0 < i" for i
  proof -
    let ?off = "chunk_StartOffset (chunks ! i)"
    have ce: "chunk_emits i (rs ! i) ?off = [placeholder_segment ?off (rs ! i)]"
      using e pos by (simp add: chunk_emits_def)
    have "0 < length (chunk_emits (0 + i) (rs ! i) (chunk_StartOffset (chunks ! (0 + i))))"
      using ce by simp
    from all_emits_nth[OF i this]
    have p: "emitted_before rs i < length (all_emits 0 rs chunks)"
      "all_emits 0 rs chunks ! (emitted_before rs i) = placeholder_segment ?off (rs ! i)"
      using ce by (simp_all add: emitted_before_def)
    have "emitted_before rs (Suc i) = emitted_before rs i + 1"
      using count_emits_Suc[OF i, of 0] e pos by (simp add: emitted_before_def)
    then show ?thesis
      using p by (simp add: m(2) renumber_nth placeholder_segment_def)
  qed
  have first: "emitted_before rs (Suc i) = emitted_before rs i"
    if i: "i < length rs" and e: "res_Segments (rs ! i) = []" and z: "\<not> 0 < i" for i
    using count_emits_Suc[OF i, of 0] e z by (simp add: emitted_before_def)
  show ?thesis
    using m ph first by (intro exI[of _ m]) simp
qed

theorem mergeResults_placeholder_witness:
  "length [\<lparr>res_Text = ''good morning'', res_Language = ''en'',
            res_Segments = [\<lparr>seg_ID = 1, seg_Start = 0, seg_End = 40, seg_Text = ''good''\<rparr>,
                            \<lparr>seg_ID = 2, seg_Start = 40, seg_End = 90, seg_Text = ''morning''\<rparr>],
            res_Duration = 0\<rparr>,
           \<lparr>res_Text = ''hm'', res_Language = ''en'', res_Segments = [], res_Duration = 0\<rparr>,
           \<lparr>res_Text = ''everyone'', res_Language = ''en'',
            res_Segments = [\<lparr>seg_ID = 1, seg_Start = 2, seg_End = 30, seg_Text = ''everyone''\<rparr>],
            res_Duration = 0\<rparr>]
     \<le> length [\<lparr>chunk_Path = ''c0.wav'', chunk_StartOffset = 0\<rparr>,
                \<lparr>chunk_Path = ''c1.wav'', chunk_StartOffset = 95\<rparr>,
                \<lparr>chunk_Path = ''c2.wav'', chunk_StartOffset = 205\<rparr>] \<and>
   (\<exists>m. mergeResults
          (map Some
            [\<lparr>res_Text = ''good morning'', res_Language = ''en'',
              res_Segments = [\<lparr>seg_ID = 1, seg_Start = 0, seg_End = 40, seg_Text = ''good''\<rparr>,
                              \<lparr>seg_ID = 2, seg_Start = 40, seg_End = 90, seg_Text = ''morning''\<rparr>],
              res_Duration = 0\<rparr>,
             \<lparr>res_Text = ''hm'', res_Language = ''en'', res_Segments = [], res_Duration = 0\<rparr>,
             \<lparr>res_Text = ''everyone'', res_Language = ''en'',
              res_Segments = [\<lparr>seg_ID = 1, seg_Start = 2, seg_End = 30, seg_Text = ''everyone''\<rparr>],
              res_Duration = 0\<rparr>])
          [\<lparr>chunk_Path = ''c0.wav'', chunk_StartOffset = 0\<rparr>,
           \<lparr>chunk_Path = ''c1.wav'', chunk_StartOffset = 95\<rparr>,
           \<lparr>chunk_Path = ''c2.wav'', chunk_StartOffset = 205\<rparr>] = Inr m \<and>
        res_Segments m =
          [\<lparr>seg_ID = 1, seg_Start = 0, seg_End = 40, seg_Text = ''good''\<rparr>,
           \<lparr>seg_ID = 2, seg_Start = 40, seg_End = 90, seg_Text = ''morning''\<rparr>,
           \<lparr>seg_ID = 3, seg_Start = 95, seg_End = 105, seg_Text = ''hm''\<rparr>,
           \<lparr>seg_ID = 4, seg_Start = 207, seg_End = 235, seg_Text = ''everyone''\<rparr>])"
  using mergeResults_placeholder
    [of "[\<lparr>res_Text = ''good morning'', res_Language = ''en'',
            res_Segments = [\<lparr>seg_ID = 1, seg_Start = 0, seg_End = 40, seg_Text = ''good''\<rparr>,
                            \<lparr>seg_ID = 2, seg_Start = 40, seg_End = 90, seg_Text = ''morning''\<rparr>],
            res_Duration = 0\<rparr>,
           \<lparr>res_Text = ''hm'', res_Language = ''en'', res_Segments = [], res_Duration = 0\<rparr>,
           \<lparr>res_Text = ''everyone'', res_Language = ''en'',
            res_Segments = [\<lparr>seg_ID = 1, seg_Start = 2, seg_End = 30, seg_Text = ''everyone''\<rparr>],
            res_Duration = 0\<rparr>]"
        "[\<lparr>chunk_Path = ''c0.wav'', chunk_StartOffset = 0\<rparr>,
          \<lparr>chunk_Path = ''c1.wav'', chunk_StartOffset = 95\<rparr>,
          \<lparr>chunk_Path = ''c2.wav'', chunk_StartOffset = 205\<rparr>]"]
  by (simp add: merge_eval)

text \<open>
  C9 (as amended). The merged text is the concatenation, in chunk order, of every
  non-empty chunk text, each followed by a line break unless it already ends with one. A
  chunk whose text is empty contributes nothing, not even a line break. When no chunk text
  is empty this is the text the specification describes.
\<close>

theorem mergeResults_text:
  assumes "length rs \<le> length chunks"
  shows "\<exists>m. mergeResults (map Some rs) chunks = Inr m \<and>
     res_Text m = concat (map text_piece rs) \<and>
     ((\<forall>r \<in> set rs. res_Text r \<noteq> []) \<longrightarrow> res_Text m = spec_text rs)"
proof -
  obtain m where m: "mergeResults (map Some rs) chunks = Inr m"
    "res_Text m = concat (map text_piece rs)"
    using mergeResults_ok[OF assms] by blast
  have "concat (map text_piece rs) = spec_text rs"
    if "\<forall>r \<in> set rs. res_Text r \<noteq> []"
  proof -
    have "map text_piece rs = map (\<lambda>r. ensure_line_break (res_Text r)) rs"
      using that by (intro map_cong) (simp_all add: text_piece_def)
    then show ?thesis unfolding spec_text_def by (rule arg_cong)
  qed
  then show ?thesis using m by auto
qed

theorem mergeResults_text_witness:
  "length [\<lparr>res_Text = ''good'', res_Language = ''en'', res_Segments = [], res_Duration = 0\<rparr>,
           \<lparr>res_Text = [], res_Language = [], res_Segments = [], res_Duration = 0\<rparr>,
           \<lparr>res_Text = [CHR ''d'', CHR ''a'', CHR ''y'', newline], res_Language = ''en'',
            res_Segments = [], res_Duration = 0\<rparr>]
     \<le> length [\<lparr>chunk_Path = ''c0.wav'', chunk_StartOffset = 0\<rparr>,
                \<lparr>chunk_Path = ''c1.wav'', chunk_StartOffset = 95\<rparr>,
                \<lparr>chunk_Path = ''c2.wav'', chunk_StartOffset = 205\<rparr>] \<and>
   (\<exists>m. mergeResults
          (map Some
            [\<lparr>res_Text = ''good'', res_Language = ''en'', res_Segments = [], res_Duration = 0\<rparr>,
             \<lparr>res_Text = [], res_Language = [], res_Segments = [], res_Duration = 0\<rparr>,
             \<lparr>res_Text = [CHR ''d'', CHR ''a'', CHR ''y'', newline], res_Language = ''en'',
              res_Segments = [], res_Duration = 0\<rparr>])
          [\<lparr>chunk_Path = ''c0.wav'', chunk_StartOffset = 0\<rparr>,
           \<lparr>chunk_Path = ''c1.wav'', chunk_StartOffset = 95\<rparr>,
           \<lparr>chunk_Path = ''c2.wav'', chunk_StartOffset = 205\<rparr>] = Inr m \<and>
        res_Text m = ''good'' @ [newline] @ ''day'' @ [newline])"
  using mergeResults_text
    [of "[\<lparr>res_Text = ''good'', res_Language = ''en'', res_Segments = [], res_Duration = 0\<rparr>,
          \<lparr>res_Text = [], res_Language = [], res_Segments = [], res_Duration = 0\<rparr>,
          \<lparr>res_Text = [CHR ''d'', CHR ''a'', CHR ''y'', newline], res_Language = ''en'',
           res_Segments = [], res_Duration = 0\<rparr>]"
        "[\<lparr>chunk_Path = ''c0.wav'', chunk_StartOffset = 0\<rparr>,
          \<lparr>chunk_Path = ''c1.wav'', chunk_StartOffset = 95\<rparr>,
          \<lparr>chunk_Path = ''c2.wav'', chunk_StartOffset = 205\<rparr>]"]
  by (simp add: merge_eval)

text \<open>
  C9 as stated fails when a chunk's text is empty: the source guards the append with
  \<^verbatim>\<open>result.Text != ""\<close>, so for the texts "good", "" and "day" the merged text has
  two line breaks where the specification's wording yields three.
\<close>

theorem mergeResults_text_counterexample:
  "mergeResults
     [Some \<lparr>res_Text = ''good'', res_Language = ''en'', res_Segments = [], res_Duration = 0\<rparr>,
      Some \<lparr>res_Text = [], res_Language = [], res_Segments = [], res_Duration = 0\<rparr>,
      Some \<lparr>res_Text = ''day'', res_Language = ''en'', res_Segments = [], res_Duration = 0\<rparr>]
     [\<lparr>chunk_Path = ''c0.wav'', chunk_StartOffset = 0\<rparr>,
      \<lparr>chunk_Path = ''c1.wav'', chunk_StartOffset = 95\<rparr>,
      \<lparr>chunk_Path = ''c2.wav'', chunk_StartOffset = 205\<rparr>]
   = Inr \<lparr>res_Text = ''good'' @ [newline] @ ''day'' @ [newline], res_Language = ''en'',
          res_Segments = [\<lparr>seg_ID = 1, seg_Start = 95, seg_End = 105, seg_Text = []\<rparr>,
                          \<lparr>seg_ID = 2, seg_Start = 205, seg_End = 215, seg_Text = ''day''\<rparr>],
          res_Duration = 215\<rparr> \<and>
   spec_text
     [\<lparr>res_Text = ''good'', res_Language = ''en'', res_Segments = [], res_Duration = 0\<rparr>,
      \<lparr>res_Text = [], res_Language = [], res_Segments = [], res_Duration = 0\<rparr>,
      \<lparr>res_Text = ''day'', res_Language = ''en'', res_Segments = [], res_Duration = 0\<rparr>]
   = ''good'' @ [newline] @ [newline] @ ''day'' @ [newline]"
  by (simp add: merge_eval spec_text_def ensure_line_break_def)

text \<open>
  C10 (as amended). If the chunk offsets are non-decreasing and, in addition, within every
  chunk the segment starts are non-negative and non-decreasing and every segment of a
  chunk starts no later than the next chunk's offset, then the segment starts of the merged
  transcript are non-decreasing.
\<close>

theorem mergeResults_starts_sorted:
  assumes "length rs \<le> length chunks"
    and "sorted (map chunk_StartOffset chunks)"
    and "\<forall>r \<in> set rs. sorted (map seg_Start (res_Segments r)) \<and>
            (\<forall>s \<in> set (res_Segments r). 0 \<le> seg_Start s)"
    and "\<forall>i. Suc i < length rs \<longrightarrow>
            (\<forall>s \<in> set (res_Segments (rs ! i)).
               seg_Start s + chunk_StartOffset (chunks ! i) \<le> chunk_StartOffset (chunks ! Suc i))"
  shows "\<exists>m. mergeResults (map Some rs) chunks = Inr m \<and> sorted (map seg_Start (res_Segments m))"
proof -
  obtain m where m: "mergeResults (map Some rs) chunks = Inr m"
    "res_Segments m = renumber 1 (all_emits 0 rs chunks)"
    using mergeResults_ok[OF assms(1)] by blast
  have adj: "\<forall>k. Suc k < length rs \<longrightarrow>
        chunk_StartOffset (chunks ! (0 + k)) \<le> chunk_StartOffset (chunks ! (0 + Suc k))"
  proof (intro allI impI)
    fix k assume "Suc k < length rs"
    then have "Suc k < length (map chunk_StartOffset chunks)" using assms(1) by simp
    from sorted_nth_mono[OF assms(2) _ this, of k]
    show "chunk_StartOffset (chunks ! (0 + k)) \<le> chunk_StartOffset (chunks ! (0 + Suc k))"
      using \<open>Suc k < length rs\<close> assms(1) by simp
  qed
  have "sorted (map seg_Start (all_emits 0 rs chunks))"
    using all_emits_sorted[of rs chunks 0, OF adj assms(3)] assms(4) by simp
  then show ?thesis using m by (simp add: map_seg_Start_renumber)
qed

theorem mergeResults_starts_sorted_witness:
  "length [\<lparr>res_Text = ''good morning'', res_Language = ''en'',
            res_Segments = [\<lparr>seg_ID = 1, seg_Start = 0, seg_End = 40, seg_Text = ''good''\<rparr>,
                            \<lparr>seg_ID = 2, seg_Start = 40, seg_End = 90, seg_Text = ''morning''\<rparr>],
            res_Duration = 0\<rparr>,
           \<lparr>res_Text = ''everyone'', res_Language = ''en'',
            res_Segments = [\<lparr>seg_ID = 1, seg_Start = 2, seg_End = 30, seg_Text = ''everyone''\<rparr>],
            res_Duration = 0\<rparr>]
     \<le> length [\<lparr>chunk_Path = ''c0.wav'', chunk_StartOffset = 0\<rparr>,
          \<lparr>chunk_Path = ''c1.wav'', chunk_StartOffset = 95\<rparr>] \<and>
   sorted (map chunk_StartOffset [\<lparr>chunk_Path = ''c0.wav'', chunk_StartOffset = 0\<rparr>,
          \<lparr>chunk_Path = ''c1.wav'', chunk_StartOffset = 95\<rparr>]) \<and>
   list_all (\<lambda>r. sorted (map seg_Start (res_Segments r)) \<and>
                  list_all (\<lambda>s. 0 \<le> seg_Start s) (res_Segments r))
     [\<lparr>res_Text = ''good morning'', res_Language = ''en'',
            res_Segments = [\<lparr>seg_ID = 1, seg_Start = 0, seg_End = 40, seg_Text = ''good''\<rparr>,
                            \<lparr>seg_ID = 2, seg_Start = 40, seg_End = 90, seg_Text = ''morning''\<rparr>],
            res_Duration = 0\<rparr>,
           \<lparr>res_Text = ''everyone'', res_Language = ''en'',
            res_Segments = [\<lparr>seg_ID = 1, seg_Start = 2, seg_End = 30, seg_Text = ''everyone''\<rparr>],
            res_Duration = 0\<rparr>] \<and>
   list_all (\<lambda>s. seg_Start s + chunk_StartOffset ([\<lparr>chunk_Path = ''c0.wav'', chunk_StartOffset = 0\<rparr>,
          \<lparr>chunk_Path = ''c1.wav'', chunk_StartOffset = 95\<rparr>] ! 0)
                    \<le> chunk_StartOffset ([\<lparr>chunk_Path = ''c0.wav'', chunk_StartOffset = 0\<rparr>,
          \<lparr>chunk_Path = ''c1.wav'', chunk_StartOffset = 95\<rparr>] ! 1))
     (res_Segments ([\<lparr>res_Text = ''good morning'', res_Language = ''en'',
            res_Segments = [\<lparr>seg_ID = 1, seg_Start = 0, seg_End = 40, seg_Text = ''good''\<rparr>,
                            \<lparr>seg_ID = 2, seg_Start = 40, seg_End = 90, seg_Text = ''morning''\<rparr>],
            res_Duration = 0\<rparr>,
           \<lparr>res_Text = ''everyone'', res_Language = ''en'',
            res_Segments = [\<lparr>seg_ID = 1, seg_Start = 2, seg_End = 30, seg_Text = ''everyone''\<rparr>],
            res_Duration = 0\<rparr>] ! 0)) \<and>
   (\<exists>m. mergeResults
          (map Some
            [\<lparr>res_Text = ''good morning'', res_Language = ''en'',
            res_Segments = [\<lparr>seg_ID = 1, seg_Start = 0, seg_End = 40, seg_Text = ''good''\<rparr>,
                            \<lparr>seg_ID = 2, seg_Start = 40, seg_End = 90, seg_Text = ''morning''\<rparr>],
            res_Duration = 0\<rparr>,
           \<lparr>res_Text = ''everyone'', res_Language = ''en'',
            res_Segments = [\<lparr>seg_ID = 1, seg_Start = 2, seg_End = 30, seg_Text = ''everyone''\<rparr>],
            res_Duration = 0\<rparr>])
          [\<lparr>chunk_Path = ''c0.wav'', chunk_StartOffset = 0\<rparr>,
          \<lparr>chunk_Path = ''c1.wav'', chunk_StartOffset = 95\<rparr>] = Inr m \<and>
        sorted (map seg_Start (res_Segments m)) \<and>
        map seg_Start (res_Segments m) = [0, 40, 97])"
  using mergeResults_starts_sorted
    [of "[\<lparr>res_Text = ''good morning'', res_Language = ''en'',
            res_Segments = [\<lparr>seg_ID = 1, seg_Start = 0, seg_End = 40, seg_Text = ''good''\<rparr>,
                            \<lparr>seg_ID = 2, seg_Start = 40, seg_End = 90, seg_Text = ''morning''\<rparr>],
            res_Duration = 0\<rparr>,
           \<lparr>res_Text = ''everyone'', res_Language = ''en'',
            res_Segments = [\<lparr>seg_ID = 1, seg_Start = 2, seg_End = 30, seg_Text = ''everyone''\<rparr>],
            res_Duration = 0\<rparr>]"
        "[\<lparr>chunk_Path = ''c0.wav'', chunk_StartOffset = 0\<rparr>,
          \<lparr>chunk_Path = ''c1.wav'', chunk_StartOffset = 95\<rparr>]"]
  by (simp add: merge_eval less_Suc_eq)

text \<open>
  C10 as stated fails: non-decreasing offsets alone do not order the merged starts. A
  segment reported at 100 s in the chunk at offset 0, followed by a segment at 0 s in the
  chunk at offset 95, gives merged starts 100 and then 95.
\<close>

theorem mergeResults_starts_counterexample:
  "sorted (map chunk_StartOffset [\<lparr>chunk_Path = ''c0.wav'', chunk_StartOffset = 0\<rparr>,
                                  \<lparr>chunk_Path = ''c1.wav'', chunk_StartOffset = 95\<rparr>]) \<and>
   mergeResults
     [Some \<lparr>res_Text = ''late'', res_Language = ''en'',
            res_Segments = [\<lparr>seg_ID = 1, seg_Start = 100, seg_End = 101, seg_Text = ''late''\<rparr>],
            res_Duration = 0\<rparr>,
      Some \<lparr>res_Text = ''early'', res_Language = ''en'',
            res_Segments = [\<lparr>seg_ID = 1, seg_Start = 0, seg_End = 1, seg_Text = ''early''\<rparr>],
            res_Duration = 0\<rparr>]
     [\<lparr>chunk_Path = ''c0.wav'', chunk_StartOffset = 0\<rparr>,
      \<lparr>chunk_Path = ''c1.wav'', chunk_StartOffset = 95\<rparr>]
   = Inr \<lparr>res_Text = ''late'' @ [newline] @ ''early'' @ [newline], res_Language = ''en'',
          res_Segments = [\<lparr>seg_ID = 1, seg_Start = 100, seg_End = 101, seg_Text = ''late''\<rparr>,
                          \<lparr>seg_ID = 2, seg_Start = 95, seg_End = 96, seg_Text = ''early''\<rparr>],
          res_Duration = 96\<rparr> \<and>
   \<not> sorted [100, 95 :: real]"
  by (simp add: merge_eval)

section \<open>The silence parser\<close>

lemma Split_not_Nil: "sep \<noteq> [] \<Longrightarrow> Split s sep \<noteq> []"
  by (cases "Index s sep") simp_all

lemma Index_single_None: "Index s [c] = None \<longleftrightarrow> c \<notin> set s"
  by (induction s) auto

lemma Index_single_take: "Index s [c] = Some i \<Longrightarrow> take i s = takeWhile (\<lambda>x. x \<noteq> c) s"
proof (induction s arbitrary: i)
  case Nil
  then show ?case by simp
next
  case (Cons x xs)
  then show ?case by (cases "x = c") auto
qed

lemma Split_single_head:
  "\<exists>rest. Split s [c] = takeWhile (\<lambda>x. x \<noteq> c) s # rest"
proof (cases "Index s [c]")
  case None
  then have "c \<notin> set s" by (simp add: Index_single_None)
  then have tw: "takeWhile (\<lambda>x. x \<noteq> c) s = s" by auto
  show ?thesis by (intro exI[of _ "[]"]) (simp add: None tw)
next
  case (Some i)
  then show ?thesis using Index_single_take[OF Some] by simp
qed

lemma parseSilenceTime_first_token:
  "parseSilenceTime scan s = scan (TrimSpace (takeWhile (\<lambda>c. c \<noteq> CHR ''|'') s))"
proof -
  obtain rest where "Split s ''|'' = takeWhile (\<lambda>c. c \<noteq> CHR ''|'') s # rest"
    using Split_single_head[of s "CHR ''|''"] by blast
  then show ?thesis by (simp add: parseSilenceTime_def)
qed

declare Split.simps [simp del]

lemma silence_step_cases:
  "silence_step scan (pts, cur) l =
     (case begin_time scan l of
        Some t \<Rightarrow> (pts, t)
      | None \<Rightarrow> (case end_time scan l of
                   Some e \<Rightarrow> (pts @ [\<lparr>sp_Start = cur, sp_End = e\<rparr>], cur)
                 | None \<Rightarrow> (pts, cur)))"
  by (simp add: silence_step_def begin_time_def end_time_def split: option.splits)

lemma silence_loop_snoc:
  "silence_loop scan (ls @ [l]) = silence_step scan (silence_loop scan ls) l"
  by (simp add: silence_loop_def)

lemma begin_end_exclusive: "begin_time scan l = Some t \<Longrightarrow> end_time scan l = None"
  by (simp add: begin_time_def end_time_def split: if_splits)

lemma silence_loop_spec:
  "map sp_End (fst (silence_loop scan ls)) = end_times scan ls \<and>
   snd (silence_loop scan ls) = last_begin scan ls"
proof (induction ls rule: rev_induct)
  case Nil
  then show ?case
    by (simp add: silence_loop_def end_times_def last_begin_def)
next
  case (snoc l ls)
  obtain pts cur where st: "silence_loop scan ls = (pts, cur)" by (cases "silence_loop scan ls")
  have et: "end_times scan (ls @ [l]) =
      end_times scan ls @ (case end_time scan l of None \<Rightarrow> [] | Some e \<Rightarrow> [e])"
    by (simp add: end_times_def List.map_filter_def split: option.splits)
  have lb: "last_begin scan (ls @ [l]) =
      (case begin_time scan l of None \<Rightarrow> last_begin scan ls | Some t \<Rightarrow> t)"
    by (simp add: last_begin_def split: option.splits)
  show ?case
    using snoc.IH st
    by (auto simp: silence_loop_snoc silence_step_cases et lb begin_end_exclusive
        split: option.splits)
qed

lemma silence_step_skip:
  "begin_time scan l = None \<Longrightarrow> end_time scan l = None \<Longrightarrow> silence_step scan st l = st"
  by (cases st) (simp add: silence_step_cases)

lemmas parse_eval = detectSilence_def parse_silence_def silence_loop_def silence_step_def
  Contains_def marker_time_def parseSilenceTime_def TrimSpace_def is_space_def newline_def
  Split.simps begin_time_def end_time_def end_times_def last_begin_def Let_def

lemmas scan_eval = scan_decimal_def is_digit_def digits_value_def digit_value_def

text \<open>
  C4 (as amended). The parser keeps no record of whether a begin marker is pending. Every
  line read as an end marker with a time emits an interval, whose start is the time of the
  last begin marker read so far and 0 when none was read (first and second conjunct). A
  begin marker never emits an interval, so an unterminated trailing begin marker leaves the
  result unchanged (third conjunct). A line that is neither read as a begin marker nor as
  an end marker, in particular a marker line whose time does not scan, changes nothing and
  the lines after it are still parsed (fourth conjunct).
\<close>

theorem parse_silence_markers:
  "map sp_End (parse_silence scan ls) = end_times scan ls \<and>
   (\<forall>e. end_time scan l1 = Some e \<longrightarrow>
      parse_silence scan (ls @ [l1]) =
        parse_silence scan ls @ [\<lparr>sp_Start = last_begin scan ls, sp_End = e\<rparr>]) \<and>
   (Contains l2 ''silence_start:'' \<longrightarrow> parse_silence scan (ls @ [l2]) = parse_silence scan ls) \<and>
   (begin_time scan l3 = None \<and> end_time scan l3 = None \<longrightarrow>
      parse_silence scan (ls @ l3 # rest) = parse_silence scan (ls @ rest))"
proof (intro conjI allI impI)
  show "map sp_End (parse_silence scan ls) = end_times scan ls"
    using silence_loop_spec[of scan ls] by (simp add: parse_silence_def)
next
  fix e assume e: "end_time scan l1 = Some e"
  then have b: "begin_time scan l1 = None"
    by (simp add: begin_time_def end_time_def split: if_splits)
  obtain pts cur where st: "silence_loop scan ls = (pts, cur)" by (cases "silence_loop scan ls")
  then have "cur = last_begin scan ls" using silence_loop_spec[of scan ls] by simp
  then show "parse_silence scan (ls @ [l1]) =
        parse_silence scan ls @ [\<lparr>sp_Start = last_begin scan ls, sp_End = e\<rparr>]"
    using st e b by (simp add: parse_silence_def silence_loop_snoc silence_step_cases)
next
  assume c: "Contains l2 ''silence_start:''"
  then have e: "end_time scan l2 = None" by (simp add: end_time_def)
  obtain pts cur where st: "silence_loop scan ls = (pts, cur)" by (cases "silence_loop scan ls")
  show "parse_silence scan (ls @ [l2]) = parse_silence scan ls"
    using st e by (simp add: parse_silence_def silence_loop_snoc silence_step_cases split: option.splits)
next
  assume "begin_time scan l3 = None \<and> end_time scan l3 = None"
  then have "silence_step scan (silence_loop scan ls) l3 = silence_loop scan ls"
    by (simp add: silence_step_skip)
  then show "parse_silence scan (ls @ l3 # rest) = parse_silence scan (ls @ rest)"
    by (simp add: parse_silence_def silence_loop_def)
qed

theorem parse_silence_markers_witness:
  "end_time scan_decimal ''[silencedetect @ 0x1] silence_end: 4 | silence_duration: 2.5'' = Some 4 \<and>
   parse_silence scan_decimal
     ([''[silencedetect @ 0x1] silence_start: 1.5''] @
      [''[silencedetect @ 0x1] silence_end: 4 | silence_duration: 2.5''])
     = [\<lparr>sp_Start = 1.5, sp_End = 4\<rparr>] \<and>
   Contains ''[silencedetect @ 0x1] silence_start: 7'' ''silence_start:'' \<and>
   parse_silence scan_decimal
     ([''[silencedetect @ 0x1] silence_start: 1.5''] @ [''[silencedetect @ 0x1] silence_start: 7''])
     = [] \<and>
   begin_time scan_decimal ''[silencedetect @ 0x1] silence_end: n/a'' = None \<and>
   end_time scan_decimal ''[silencedetect @ 0x1] silence_end: n/a'' = None \<and>
   parse_silence scan_decimal
     ([''[silencedetect @ 0x1] silence_start: 1.5''] @
      ''[silencedetect @ 0x1] silence_end: n/a'' # [''[silencedetect @ 0x1] silence_end: 9''])
     = [\<lparr>sp_Start = 1.5, sp_End = 9\<rparr>]"
  using parse_silence_markers
    [of scan_decimal "[''[silencedetect @ 0x1] silence_start: 1.5'']"
        "''[silencedetect @ 0x1] silence_end: 4 | silence_duration: 2.5''"
        "''[silencedetect @ 0x1] silence_start: 7''"
        "''[silencedetect @ 0x1] silence_end: n/a''"
        "[''[silencedetect @ 0x1] silence_end: 9'']"]
  by (simp add: parse_eval scan_eval)

text \<open>
  C4 as stated fails: an end marker that no begin marker precedes still emits an interval,
  starting at 0, the zero value of \<^verbatim>\<open>currentStart\<close>.
\<close>

theorem detectSilence_end_without_start_counterexample:
  "detectSilence scan_decimal
     (Some ''[silencedetect @ 0x1] silence_end: 5.2 | silence_duration: 5.2'')
   = Inr [\<lparr>sp_Start = 0, sp_End = 5.2\<rparr>]"
  by (simp add: parse_eval scan_eval)

text \<open>
  C8. For a scanner that reads the two numerals as 12.34 and 45.60, the two lines of the
  example parse to the single interval from 12.34 to 45.60, a lone begin marker parses to
  no interval, and \<^verbatim>\<open>parseSilenceTime\<close> hands to the scanner exactly the text before the
  first \<^verbatim>\<open>|\<close>, trimmed of white space.
\<close>

theorem detectSilence_example:
  assumes "scan ''12.34'' = Some 12.34" and "scan ''45.60'' = Some 45.60"
  shows "detectSilence scan
           (Some (''silence_start: 12.34'' @ [newline] @
                  ''silence_end: 45.60 | silence_duration: 33.26''))
           = Inr [\<lparr>sp_Start = 12.34, sp_End = 45.60\<rparr>] \<and>
         detectSilence scan (Some ''silence_start: 12.34'') = Inr [] \<and>
         parseSilenceTime scan s = scan (TrimSpace (takeWhile (\<lambda>c. c \<noteq> CHR ''|'') s))"
proof -
  have "detectSilence scan
           (Some (''silence_start: 12.34'' @ [newline] @
                  ''silence_end: 45.60 | silence_duration: 33.26''))
           = Inr [\<lparr>sp_Start = 12.34, sp_End = 45.60\<rparr>]"
    using assms by (simp add: parse_eval)
  moreover have "detectSilence scan (Some ''silence_start: 12.34'') = Inr []"
    using assms by (simp add: parse_eval)
  ultimately show ?thesis
    using parseSilenceTime_first_token[of scan s] by simp
qed

theorem detectSilence_example_witness:
  "scan_decimal ''12.34'' = Some 12.34 \<and> scan_decimal ''45.60'' = Some 45.60 \<and>
   detectSilence scan_decimal
           (Some (''silence_start: 12.34'' @ [newline] @
                  ''silence_end: 45.60 | silence_duration: 33.26''))
           = Inr [\<lparr>sp_Start = 12.34, sp_End = 45.60\<rparr>] \<and>
   detectSilence scan_decimal (Some ''silence_start: 12.34'') = Inr [] \<and>
   parseSilenceTime scan_decimal ''45.60 | silence_duration: 33.26'' = Some 45.60"
proof -
  have a: "scan_decimal ''12.34'' = Some 12.34" by (simp add: scan_eval)
  have b: "scan_decimal ''45.60'' = Some 45.60" by (simp add: scan_eval)
  show ?thesis
    using a b detectSilence_example[OF a b, of "''45.60 | silence_duration: 33.26''"]
    by (simp add: TrimSpace_def is_space_def)
qed

section \<open>The chunk extractor\<close>

text \<open>
  C6. The claim does not hold of the source. When the extraction of the second chunk fails
  after the tool has opened its output, the source removes the first chunk's file and
  returns the error with no chunks, but the partial file of the failing chunk stays: its
  path was never appended to \<^verbatim>\<open>chunks\<close>, and only those are removed (first conjunct).
  And when \<^verbatim>\<open>getAudioDuration\<close> fails, its error is dropped, the duration is 0, and the
  chunk after the last split time is not extracted at all, although no error is returned
  (second conjunct).
\<close>

theorem createAudioChunks_partial_file_stays:
  "createAudioChunks (\<lambda>i. ''chunk'' @ replicate i (CHR ''x'') @ ''.wav'')
       (\<lambda>i. [Succeeded, Failed True, Succeeded] ! i) 300 [95, 205] {''input.wav''}
     = (Inl CreateChunkFailed, {''input.wav'', ''chunkx.wav''}) \<and>
   createAudioChunks (\<lambda>i. ''chunk'' @ replicate i (CHR ''x'') @ ''.wav'')
       (\<lambda>i. Succeeded) 0 [95, 205] {''input.wav''}
     = (Inr [\<lparr>chunk_Path = ''chunk.wav'', chunk_StartOffset = 0\<rparr>,
             \<lparr>chunk_Path = ''chunkx.wav'', chunk_StartOffset = 95\<rparr>],
        {''input.wav'', ''chunk.wav'', ''chunkx.wav''})"
  by (auto simp: createAudioChunks_def remove_all_def after_run_def Let_def)

section \<open>The subtitle timestamp\<close>

lemma go_int_eq:
  assumes "0 \<le> k" "of_int k \<le> x" "x < of_int k + 1"
  shows "go_int x = k"
proof -
  have "0 \<le> x" using assms(1,2) by (meson of_int_0_le_iff order_trans)
  moreover have "\<lfloor>x\<rfloor> = k" using assms(2,3) by (intro floor_unique) simp_all
  ultimately show ?thesis by (simp add: go_int_def)
qed

declare decimal.simps [simp del]

lemma formatSRTTime_unfold:
  assumes "go_int (fdiv s 3600) = h"
    and "fsub s (fmul (float64 h) 3600) = s1"
    and "go_int (fdiv s1 60) = mi"
    and "fsub s1 (fmul (float64 mi) 60) = s2"
    and "go_int s2 = sc"
    and "go_int (fmul (fsub s2 (float64 sc)) 1000) = ms"
  shows "formatSRTTime s =
           sprintf_0d 2 h @ '':'' @ sprintf_0d 2 mi @ '':'' @ sprintf_0d 2 sc @ '','' @ sprintf_0d 3 ms"
  using assms by (simp add: formatSRTTime_def Let_def)

lemma round_3661_234:
  "round_binary64 (3661234 / 1000) = 8051138710017671 / 2199023255552"
  using round_binary64_eq[of 11 "3661234 / 1000" 8051138710017671]
  by (simp add: pow2_def)

lemma float64_1: "float64 1 = 1"
  using round_binary64_eq[of 0 1 4503599627370496]
  by (simp add: pow2_def float64_def)

lemma fmul_1_3600: "fmul 1 3600 = 3600"
  using round_binary64_eq[of 11 3600 7916483719987200]
  by (simp add: pow2_def fmul_def)

lemma fmul_1_60: "fmul 1 60 = 60"
  using round_binary64_eq[of 5 60 8444249301319680]
  by (simp add: pow2_def fmul_def)

lemma hours_3661_234:
  "go_int (fdiv (8051138710017671 / 2199023255552) 3600) = 1"
proof -
  have "round_binary64 (8051138710017671 / 2199023255552 / 3600)
          = 4580203355032275 / 4503599627370496"
    using round_binary64_eq[of 0 "8051138710017671 / 2199023255552 / 3600" 4580203355032275]
    by (simp add: pow2_def)
  then have "fdiv (8051138710017671 / 2199023255552) 3600 = 4580203355032275 / 4503599627370496"
    by (simp only: fdiv_def)
  moreover have "go_int (4580203355032275 / 4503599627370496) = 1"
    by (rule go_int_eq) simp_all
  ultimately show ?thesis by (simp only:)
qed

lemma rest_3661_234:
  "fsub (8051138710017671 / 2199023255552) (fmul (float64 1) 3600)
     = 134654990030471 / 2199023255552"
proof -
  have "round_binary64 (8051138710017671 / 2199023255552 - 3600)
          = 134654990030471 / 2199023255552"
    using round_binary64_eq[of 5 "8051138710017671 / 2199023255552 - 3600" 8617919361950144]
    by (simp add: pow2_def)
  then show ?thesis by (simp only: fsub_def float64_1 fmul_1_3600)
qed

lemma minutes_3661_234:
  "go_int (fdiv (134654990030471 / 2199023255552) 60) = 1"
proof -
  have "round_binary64 (134654990030471 / 2199023255552 / 60)
          = 4596223659706743 / 4503599627370496"
    using round_binary64_eq[of 0 "134654990030471 / 2199023255552 / 60" 4596223659706743]
    by (simp add: pow2_def)
  then have "fdiv (134654990030471 / 2199023255552) 60 = 4596223659706743 / 4503599627370496"
    by (simp only: fdiv_def)
  moreover have "go_int (4596223659706743 / 4503599627370496) = 1"
    by (rule go_int_eq) simp_all
  ultimately show ?thesis by (simp only:)
qed

lemma rest2_3661_234:
  "fsub (134654990030471 / 2199023255552) (fmul (float64 1) 60)
     = 2713594697351 / 2199023255552"
proof -
  have "round_binary64 (134654990030471 / 2199023255552 - 60)
          = 2713594697351 / 2199023255552"
    using round_binary64_eq[of 0 "134654990030471 / 2199023255552 - 60" 5557441940174848]
    by (simp add: pow2_def)
  then show ?thesis by (simp only: fsub_def float64_1 fmul_1_60)
qed

lemma secs_3661_234: "go_int (2713594697351 / 2199023255552) = 1"
  by (rule go_int_eq) simp_all

lemma millis_3661_234:
  "go_int (fmul (fsub (2713594697351 / 2199023255552) (float64 1)) 1000) = 233"
proof -
  have "round_binary64 (2713594697351 / 2199023255552 - 1) = 514571441799 / 2199023255552"
    using round_binary64_eq[of "-3" "2713594697351 / 2199023255552 - 1" 8430738502434816]
    by (simp add: pow2_def)
  then have a: "fsub (2713594697351 / 2199023255552) (float64 1) = 514571441799 / 2199023255552"
    by (simp only: fsub_def float64_1)
  have "round_binary64 (514571441799 / 2199023255552 * 1000) = 64321430224875 / 274877906944"
    using round_binary64_eq[of 7 "514571441799 / 2199023255552 * 1000" 8233143068784000]
    by (simp add: pow2_def)
  then have b: "fmul (514571441799 / 2199023255552) 1000 = 64321430224875 / 274877906944"
    by (simp only: fmul_def)
  have "go_int (64321430224875 / 274877906944) = 233"
    by (rule go_int_eq) simp_all
  then show ?thesis by (simp only: a b)
qed

lemma sprintf_values:
  "sprintf_0d 2 1 = ''01''" "sprintf_0d 3 233 = ''233''"
  by (simp_all add: sprintf_0d_def decimal.simps digit_char_def Let_def)

text \<open>
  C7. The claim's example does not hold of the source. The double nearest to 3661.234 is
  slightly below it, the subtractions of the hours, minutes and seconds are exact, and the
  remaining fraction times 1000 is 233.9999999999236, which \<^verbatim>\<open>int(...)\<close> cuts to 233:
  \<^verbatim>\<open>formatSRTTime(3661.234)\<close> returns \<^verbatim>\<open>01:01:01,233\<close>, not \<^verbatim>\<open>01:01:01,234\<close>.
\<close>

theorem formatSRTTime_3661_234:
  "formatSRTTime (round_binary64 (3661234 / 1000)) = ''01:01:01,233''"
proof -
  have "formatSRTTime (8051138710017671 / 2199023255552) =
          sprintf_0d 2 1 @ '':'' @ sprintf_0d 2 1 @ '':'' @ sprintf_0d 2 1 @ '','' @ sprintf_0d 3 233"
    by (rule formatSRTTime_unfold[OF hours_3661_234 rest_3661_234 minutes_3661_234
          rest2_3661_234 secs_3661_234 millis_3661_234])
  then show ?thesis
    by (simp only: round_3661_234 sprintf_values append.simps)
qed

end

